theory Spec2Isabelle
  imports Complex_Main
begin

section \<open>JavaScript values read by the screens\<close>

text \<open>
  The two screens, \<^verbatim>\<open>src/app/index.tsx\<close> and \<^verbatim>\<open>src/app/modal.tsx\<close>, receive
  \<^verbatim>\<open>JSON.parse(event.data)\<close> as a value of type \<^verbatim>\<open>any\<close>. The model keeps the whole value:
  a number is kept as the text \<^verbatim>\<open>Number.prototype.toString\<close> prints for it (the handlers
  only test a number for truthiness and turn it into text), a string as its bytes, an
  object as the list of its own properties.
\<close>

datatype error = TypeError | InvalidStateError

datatype jsval =
    JUndefined
  | JNull
  | JBool bool
  | JNum string
  | JStr string
  | JArr "jsval list"
  | JObj "(string \<times> jsval) list"

text \<open>Truthiness, as \<^verbatim>\<open>||\<close> and \<^verbatim>\<open>if\<close> test it.\<close>

fun truthy :: "jsval \<Rightarrow> bool" where
  "truthy JUndefined = False"
| "truthy JNull = False"
| "truthy (JBool b) = b"
| "truthy (JNum t) = (t \<noteq> ''0'' \<and> t \<noteq> ''NaN'')"
| "truthy (JStr s) = (s \<noteq> [])"
| "truthy (JArr xs) = True"
| "truthy (JObj kvs) = True"

definition jsOr :: "jsval \<Rightarrow> jsval \<Rightarrow> jsval" where
  "jsOr a b = (if truthy a then a else b)"

text \<open>
  \<^verbatim>\<open>data.name\<close> for the property names the handlers read (\<^verbatim>\<open>type\<close>, \<^verbatim>\<open>action\<close>,
  \<^verbatim>\<open>msg_type\<close>, \<^verbatim>\<open>predicted_class\<close>, \<^verbatim>\<open>confidence\<close>, \<^verbatim>\<open>message\<close>, \<^verbatim>\<open>frame_count\<close>): none of
  them is a built-in property of a primitive, an array or \<^verbatim>\<open>Object.prototype\<close>, so only an
  object's own property can answer. Reading a property of \<^verbatim>\<open>null\<close> or \<^verbatim>\<open>undefined\<close> throws.
\<close>

fun getProp :: "jsval \<Rightarrow> string \<Rightarrow> error + jsval" where
  "getProp JUndefined name = Inl TypeError"
| "getProp JNull name = Inl TypeError"
| "getProp (JObj kvs) name = Inr (case map_of kvs name of None \<Rightarrow> JUndefined | Some v \<Rightarrow> v)"
| "getProp v name = Inr JUndefined"

text \<open>
  Conversion to text, by \<^verbatim>\<open>.toString()\<close> and by \<^verbatim>\<open>'...' + v\<close>. An array joins its
  elements with commas, \<^verbatim>\<open>null\<close> and \<^verbatim>\<open>undefined\<close> elements giving the empty text. A parsed
  object prints as \<^verbatim>\<open>[object Object]\<close>, unless it carries a property \<^verbatim>\<open>toString\<close> of its own:
  that property is JSON data, not a function, and the conversion throws.
\<close>

fun toStringJs :: "jsval \<Rightarrow> error + string"
  and joinJs :: "jsval list \<Rightarrow> error + string" where
  "toStringJs JUndefined = Inr ''undefined''"
| "toStringJs JNull = Inr ''null''"
| "toStringJs (JBool b) = Inr (if b then ''true'' else ''false'')"
| "toStringJs (JNum t) = Inr t"
| "toStringJs (JStr s) = Inr s"
| "toStringJs (JArr xs) = joinJs xs"
| "toStringJs (JObj kvs) =
     (if ''toString'' \<in> set (map fst kvs) then Inl TypeError else Inr ''[object Object]'')"
| "joinJs [] = Inr []"
| "joinJs (x # xs) =
     (case (if x = JUndefined \<or> x = JNull then Inr [] else toStringJs x) of
        Inl e \<Rightarrow> Inl e
      | Inr a \<Rightarrow>
          (if xs = [] then Inr a
           else (case joinJs xs of Inl e \<Rightarrow> Inl e | Inr b \<Rightarrow> Inr (a @ '','' @ b))))"

text \<open>
  \<^verbatim>\<open>String.prototype.toLowerCase\<close> on the ASCII letters. Bytes outside ASCII are left as
  they are; of the four message types the handler knows, only \<^verbatim>\<open>ack\<close> can also be reached
  from a non-ASCII letter (the Kelvin sign), and \<^verbatim>\<open>ack\<close> is handled like an unknown type.
\<close>

definition lowerChar :: "char \<Rightarrow> char" where
  "lowerChar c =
     (case map_of (zip ''ABCDEFGHIJKLMNOPQRSTUVWXYZ'' ''abcdefghijklmnopqrstuvwxyz'') c of
        None \<Rightarrow> c
      | Some l \<Rightarrow> l)"

definition toLowerCase :: "string \<Rightarrow> string" where
  "toLowerCase s = map lowerChar s"

text \<open>A counter printed in a template string.\<close>

fun showNat :: "nat \<Rightarrow> string" where
  "showNat n =
     (if n < 10 then [''0123456789'' ! n]
      else showNat (n div 10) @ [''0123456789'' ! (n mod 10)])"

declare showNat.simps [simp del]

text \<open>
  \<^verbatim>\<open>100 / streamFPS\<close> is a JavaScript number: the quotient, or \<^verbatim>\<open>Infinity\<close> when the divisor
  is zero. The timestamps it is compared with are whole milliseconds, and for them the
  comparison with the rounded double agrees with the comparison with the exact quotient.
\<close>

datatype jsnum = Fin rat | Infinity

fun halfNum :: "jsnum \<Rightarrow> jsnum" where
  "halfNum (Fin q) = Fin (q / 2)"
| "halfNum Infinity = Infinity"

fun lessNum :: "int \<Rightarrow> jsnum \<Rightarrow> bool" where
  "lessNum d (Fin q) = (of_int d < q)"
| "lessNum d Infinity = True"

section \<open>Data of the screens\<close>

datatype CameraType = Front | Back

datatype Prediction =
  Prediction (predicted_class: jsval) (confidence: jsval) (timestamp: string)

datatype SystemMessage =
  SystemMessage (message: jsval) (system_timestamp: string)

datatype ChatMessage = OfPrediction Prediction | OfSystem SystemMessage

datatype readyState = CONNECTING | OPEN | CLOSING | CLOSED

text \<open>
  The objects handed to \<^verbatim>\<open>JSON.stringify\<close> and \<^verbatim>\<open>send\<close>. Of \<^verbatim>\<open>index.tsx\<close>:
  \<^verbatim>\<open>video_frame\<close> with \<^verbatim>\<open>frame\<close>, \<^verbatim>\<open>frame_number\<close>, \<^verbatim>\<open>timestamp\<close>, \<^verbatim>\<open>width\<close>, \<^verbatim>\<open>height\<close>;
  \<^verbatim>\<open>ack\<close> with \<^verbatim>\<open>frame_count\<close>, \<^verbatim>\<open>fps\<close>; \<^verbatim>\<open>start_video_stream\<close> with \<^verbatim>\<open>target_fps\<close>,
  \<^verbatim>\<open>predict_every_frames\<close>; \<^verbatim>\<open>stop_video_stream\<close>. Of \<^verbatim>\<open>modal.tsx\<close>: the bare \<^verbatim>\<open>frame\<close>;
  \<^verbatim>\<open>ack\<close> with \<^verbatim>\<open>frame_count\<close>; \<^verbatim>\<open>start\<close> with \<^verbatim>\<open>predict_every_frames\<close>; \<^verbatim>\<open>stop\<close>.
\<close>

datatype outmsg =
    Video_frame string nat int nat nat
  | Ack nat nat
  | Start_video_stream nat nat
  | Stop_video_stream
  | Frame_modal string
  | Ack_modal nat
  | Start_modal nat
  | Stop_modal

text \<open>What \<^verbatim>\<open>takePictureAsync\<close> resolves to, or the rejection the \<^verbatim>\<open>await\<close> throws.\<close>

record photo =
  base64 :: "string option"
  width :: nat
  height :: nat

datatype captureResult = Rejected string | Resolved "photo option"

text \<open>
  The state both screens keep: the React state, the refs, and the environment the refs
  point into (the sockets created so far with their \<^verbatim>\<open>readyState\<close>, the messages sent, in
  order, with the socket each went to). \<^verbatim>\<open>cameraRef\<close> is whether the camera view is attached;
  \<^verbatim>\<open>wsRef\<close> holds the index of a socket, \<^verbatim>\<open>captureIntervalRef\<close> the handle \<^verbatim>\<open>setInterval\<close>
  returned (handles are positive numbers, so a handle is truthy). What only the rendering
  reads or writes (camera permission, reduced motion, the animation of the confidence
  bar) is left out.
\<close>

record screen =
  facing :: CameraType
  analysisActive :: bool
  chatHistory :: "ChatMessage list"
  totalPredictions :: nat
  currentPrediction :: "Prediction option"
  status :: string
  isConnected :: bool
  cameraRef :: bool
  wsRef :: "nat option"
  frameCountRef :: nat
  captureIntervalRef :: "nat option"
  sockets :: "readyState list"
  nextTimerId :: nat
  sent :: "(nat \<times> outmsg) list"

text \<open>
  The repeating timer of \<^verbatim>\<open>index.tsx\<close> runs the \<^verbatim>\<open>captureFrame\<close> closure of one call of
  \<^verbatim>\<open>startVideoStream\<close>: it has the delay given to \<^verbatim>\<open>setInterval\<close> and the \<^verbatim>\<open>streamFPS\<close>
  the closure captured.
\<close>

record timer =
  period :: jsnum
  capturedFPS :: nat

text \<open>
  The callbacks \<^verbatim>\<open>index.tsx\<close> gives to \<^verbatim>\<open>setTimeout\<close>, each with the values of the render
  its closure belongs to: \<^verbatim>\<open>startAnalysis\<close> again after 1000 ms (that closure saw
  \<^verbatim>\<open>isConnected\<close> false), \<^verbatim>\<open>startVideoStream\<close> after 100 ms, and after 200 ms the restart of
  \<^verbatim>\<open>toggleStreamFPS\<close>, whose \<^verbatim>\<open>startVideoStream\<close> still sees the frame rate from before the
  toggle while its status text names the new one.
\<close>

datatype timeout =
    RetryStartAnalysis nat
  | DelayedStartVideoStream nat
  | DelayedRestart nat nat

record state = screen +
  streamFPS :: nat
  errorAlertShownRef :: bool
  isStreamingRef :: bool
  lastFrameTimeRef :: int
  isMountedRef :: bool
  intervals :: "(nat \<times> timer) list"
  timeouts :: "timeout list"
  inFlight :: "(nat \<times> int) list"

record modal_state = screen +
  intervals_modal :: "nat list"
  timeouts_modal :: nat
  inFlight_modal :: nat
  alerts :: "(string \<times> jsval) list"

text \<open>Status texts; the leading symbol of each is written as its UTF-8 bytes.\<close>

definition sym_arrows :: string where "sym_arrows = [CHR 0xF0, CHR 0x9F, CHR 0x94, CHR 0x84]"
definition sym_check :: string where "sym_check = [CHR 0xE2, CHR 0x9C, CHR 0x85]"
definition sym_warning :: string where
  "sym_warning = [CHR 0xE2, CHR 0x9A, CHR 0xA0, CHR 0xEF, CHR 0xB8, CHR 0x8F]"
definition sym_cross :: string where "sym_cross = [CHR 0xE2, CHR 0x9D, CHR 0x8C]"
definition sym_camera :: string where "sym_camera = [CHR 0xF0, CHR 0x9F, CHR 0x8E, CHR 0xA5]"
definition sym_pause :: string where
  "sym_pause = [CHR 0xE2, CHR 0x8F, CHR 0xB8, CHR 0xEF, CHR 0xB8, CHR 0x8F]"
definition sym_lens :: string where "sym_lens = [CHR 0xF0, CHR 0x9F, CHR 0x94, CHR 0x8D]"

section \<open>Sockets and the code the two screens share\<close>

definition readyStateOf :: "'a screen_scheme \<Rightarrow> nat \<Rightarrow> readyState" where
  "readyStateOf s i = (if i < length (sockets s) then sockets s ! i else CLOSED)"

text \<open>\<^verbatim>\<open>wsRef.current && wsRef.current.readyState === WebSocket.OPEN\<close>\<close>

definition wsOpen :: "'a screen_scheme \<Rightarrow> bool" where
  "wsOpen s = (case wsRef s of None \<Rightarrow> False | Some i \<Rightarrow> readyStateOf s i = OPEN)"

text \<open>
  \<^verbatim>\<open>ws.send\<close>, as React Native's \<^verbatim>\<open>WebSocket\<close> has it: an open socket takes the message, a
  connecting one throws, a closing or closed one drops it.
\<close>

definition wsSend :: "nat \<Rightarrow> outmsg \<Rightarrow> 'a screen_scheme \<Rightarrow> error + 'a screen_scheme" where
  "wsSend i m s =
     (case readyStateOf s i of
        CONNECTING \<Rightarrow> Inl InvalidStateError
      | OPEN \<Rightarrow> Inr (s\<lparr>sent := sent s @ [(i, m)]\<rparr>)
      | CLOSING \<Rightarrow> Inr s
      | CLOSED \<Rightarrow> Inr s)"

text \<open>
  A send behind the guard \<^verbatim>\<open>wsRef.current && wsRef.current.readyState === WebSocket.OPEN\<close>:
  nothing is sent when the guard fails.
\<close>

definition sendIfOpen :: "outmsg \<Rightarrow> 'a screen_scheme \<Rightarrow> 'a screen_scheme" where
  "sendIfOpen m s =
     (case wsRef s of
        None \<Rightarrow> s
      | Some i \<Rightarrow> (if readyStateOf s i = OPEN then s\<lparr>sent := sent s @ [(i, m)]\<rparr> else s))"

text \<open>\<^verbatim>\<open>ws.close()\<close>\<close>

definition wsClose :: "nat \<Rightarrow> 'a screen_scheme \<Rightarrow> 'a screen_scheme" where
  "wsClose i s =
     (if i < length (sockets s) \<and> sockets s ! i \<noteq> CLOSED
      then s\<lparr>sockets := (sockets s)[i := CLOSING]\<rparr> else s)"

text \<open>
  \<^verbatim>\<open>connectWebSocket\<close>: a new socket, connecting, in \<^verbatim>\<open>wsRef\<close>; the socket it replaces is
  not closed. The constructor is given a constant well-formed URL and does not throw.
\<close>

definition connectWebSocket :: "'a screen_scheme \<Rightarrow> 'a screen_scheme" where
  "connectWebSocket s =
     s\<lparr>sockets := sockets s @ [CONNECTING], wsRef := Some (length (sockets s))\<rparr>"

definition onopen :: "'a screen_scheme \<Rightarrow> 'a screen_scheme" where
  "onopen s = s\<lparr>isConnected := True, status := sym_check @ '' Connected to AI Server''\<rparr>"

definition onclose :: "'a screen_scheme \<Rightarrow> 'a screen_scheme" where
  "onclose s =
     s\<lparr>isConnected := False,
       status := sym_warning @ '' Disconnected - Tap to retry'',
       analysisActive := False\<rparr>"

definition onerror :: "'a screen_scheme \<Rightarrow> 'a screen_scheme" where
  "onerror s = s\<lparr>status := sym_cross @ '' Connection failed''\<rparr>"

definition toggleCameraFacing :: "'a screen_scheme \<Rightarrow> 'a screen_scheme" where
  "toggleCameraFacing s = s\<lparr>facing := (if facing s = Back then Front else Back)\<rparr>"

definition clearHistory :: "'a screen_scheme \<Rightarrow> 'a screen_scheme" where
  "clearHistory s = s\<lparr>chatHistory := [], totalPredictions := 0, currentPrediction := None\<rparr>"

text \<open>\<^verbatim>\<open>[...prev.slice(-11), entry]\<close>\<close>

definition slice_last :: "nat \<Rightarrow> 'a list \<Rightarrow> 'a list" where
  "slice_last n xs = drop (length xs - n) xs"

definition appendHistory :: "ChatMessage \<Rightarrow> ChatMessage list \<Rightarrow> ChatMessage list" where
  "appendHistory entry prev = slice_last 11 prev @ [entry]"

definition bindE :: "error + 'a \<Rightarrow> ('a \<Rightarrow> error + 'b) \<Rightarrow> error + 'b" where
  "bindE r f = (case r of Inl e \<Rightarrow> Inl e | Inr v \<Rightarrow> f v)"

definition removeAt :: "nat \<Rightarrow> 'a list \<Rightarrow> 'a list" where
  "removeAt k xs = take k xs @ drop (Suc k) xs"

section \<open>The screen of index.tsx\<close>

text \<open>
  A handler called from the user interface reads the React state of the current render,
  the field of the state record. A function the code also hands to a timer gets the
  values its closure captured as arguments: \<^verbatim>\<open>isConnected\<close> and \<^verbatim>\<open>streamFPS\<close> for
  \<^verbatim>\<open>startAnalysis\<close>, \<^verbatim>\<open>streamFPS\<close> for \<^verbatim>\<open>startVideoStream\<close> and the \<^verbatim>\<open>captureFrame\<close> inside it.
  \<^verbatim>\<open>new Date().toLocaleTimeString()\<close> and \<^verbatim>\<open>Date.now()\<close> are arguments as well.
\<close>

definition initialState :: state where
  "initialState =
     \<lparr>facing = Front, analysisActive = False, chatHistory = [], totalPredictions = 0,
      currentPrediction = None, status = sym_arrows @ '' Initializing...'',
      isConnected = False, cameraRef = False, wsRef = None, frameCountRef = 0,
      captureIntervalRef = None, sockets = [], nextTimerId = 1, sent = [],
      streamFPS = 5, errorAlertShownRef = False, isStreamingRef = False,
      lastFrameTimeRef = 0, isMountedRef = True, intervals = [], timeouts = [],
      inFlight = []\<rparr>"

text \<open>
  \<^verbatim>\<open>(data.type || data.action || data.msg_type || '').toString().toLowerCase()\<close>
\<close>

definition msgTypeOf :: "jsval \<Rightarrow> error + string" where
  "msgTypeOf data =
     bindE (getProp data ''type'') (\<lambda>t.
     bindE (if truthy t then Inr t else getProp data ''action'') (\<lambda>a.
     bindE (if truthy a then Inr a else getProp data ''msg_type'') (\<lambda>m.
     bindE (toStringJs (jsOr m (JStr []))) (\<lambda>str.
     Inr (toLowerCase str)))))"

text \<open>\<^verbatim>\<open>handleWebSocketMessage\<close> of \<^verbatim>\<open>index.tsx\<close> (lines 134-182), with the time its entries are stamped with.\<close>

definition handleWebSocketMessage :: "string \<Rightarrow> jsval \<Rightarrow> state \<Rightarrow> error + state" where
  "handleWebSocketMessage time data s =
     bindE (msgTypeOf data) (\<lambda>msgType.
       if msgType = ''prediction'' then
         bindE (getProp data ''predicted_class'') (\<lambda>pc.
         bindE (getProp data ''confidence'') (\<lambda>cf.
           let prediction = Prediction pc cf time in
           Inr (s\<lparr>currentPrediction := Some prediction,
                  chatHistory := appendHistory (OfPrediction prediction) (chatHistory s),
                  totalPredictions := totalPredictions s + 1\<rparr>)))
       else if msgType = ''status'' then
         bindE (getProp data ''message'') (\<lambda>m.
           let systemMessage = SystemMessage m time in
           Inr (s\<lparr>chatHistory := appendHistory (OfSystem systemMessage) (chatHistory s)\<rparr>))
       else if msgType = ''ack'' then Inr s
       else if msgType = ''error'' then
         bindE (getProp data ''message'') (\<lambda>m.
           let text = jsOr m (JStr ''Analysis error'') in
           bindE (toStringJs text) (\<lambda>str.
             let errMsg = SystemMessage text time in
             Inr (s\<lparr>status := sym_cross @ '' '' @ str,
                    chatHistory := appendHistory (OfSystem errMsg) (chatHistory s),
                    errorAlertShownRef := True\<rparr>)))
       else Inr s)"

text \<open>
  \<^verbatim>\<open>ws.onmessage\<close>: the payload is \<^verbatim>\<open>None\<close> when \<^verbatim>\<open>JSON.parse\<close> throws; the \<^verbatim>\<open>catch\<close> around
  parse and handler logs whatever either throws and changes nothing.
\<close>

definition onmessage :: "string \<Rightarrow> jsval option \<Rightarrow> state \<Rightarrow> state" where
  "onmessage time payload s =
     (case payload of
        None \<Rightarrow> s
      | Some data \<Rightarrow>
          (case handleWebSocketMessage time data s of Inl e \<Rightarrow> s | Inr s' \<Rightarrow> s'))"

text \<open>\<^verbatim>\<open>const frameInterval = 100 / streamFPS\<close> (line 201)\<close>

definition frameInterval :: "nat \<Rightarrow> jsnum" where
  "frameInterval fps = (if fps = 0 then Infinity else Fin (100 / of_nat fps))"

text \<open>\<^verbatim>\<open>clearInterval\<close>: the timer is removed from the running ones.\<close>

definition clearInterval :: "nat \<Rightarrow> state \<Rightarrow> state" where
  "clearInterval t s = s\<lparr>intervals := filter (\<lambda>e. fst e \<noteq> t) (intervals s)\<rparr>"

text \<open>\<^verbatim>\<open>stopVideoStream\<close> (lines 268-275)\<close>

definition stopVideoStream :: "state \<Rightarrow> state" where
  "stopVideoStream s =
     (let s1 = s\<lparr>isStreamingRef := False\<rparr>;
          s2 = (case captureIntervalRef s1 of
                  None \<Rightarrow> s1
                | Some t \<Rightarrow> (clearInterval t s1)\<lparr>captureIntervalRef := None\<rparr>)
      in s2\<lparr>lastFrameTimeRef := 0\<rparr>)"

text \<open>\<^verbatim>\<open>disconnectWebSocket\<close> (lines 184-190)\<close>

definition disconnectWebSocket :: "state \<Rightarrow> state" where
  "disconnectWebSocket s =
     stopVideoStream
       (case wsRef s of None \<Rightarrow> s | Some i \<Rightarrow> (wsClose i s)\<lparr>wsRef := None\<rparr>)"

text \<open>\<^verbatim>\<open>startVideoStream\<close> (lines 192-266), with the \<^verbatim>\<open>streamFPS\<close> of its closure: the guard, the three refs, and the new timer in place of the one in \<^verbatim>\<open>captureIntervalRef\<close>.\<close>

definition startVideoStream :: "nat \<Rightarrow> state \<Rightarrow> state" where
  "startVideoStream fps s =
     (if \<not> cameraRef s \<or> \<not> wsOpen s then s
      else
        let s1 = s\<lparr>isStreamingRef := True, frameCountRef := 0, lastFrameTimeRef := 0\<rparr>;
            s2 = (case captureIntervalRef s1 of None \<Rightarrow> s1 | Some t \<Rightarrow> clearInterval t s1)
        in s2\<lparr>intervals :=
                 intervals s2 @
                 [(nextTimerId s2, \<lparr>period = halfNum (frameInterval fps), capturedFPS = fps\<rparr>)],
               captureIntervalRef := Some (nextTimerId s2),
               nextTimerId := nextTimerId s2 + 1\<rparr>)"

text \<open>
  \<^verbatim>\<open>captureFrame\<close> up to its \<^verbatim>\<open>await\<close>: the tick either returns or asks the camera for a
  picture, which is then in flight with the \<^verbatim>\<open>now\<close> and the frame rate of its closure.
\<close>

definition captureFrame :: "nat \<Rightarrow> int \<Rightarrow> state \<Rightarrow> state" where
  "captureFrame fps now s =
     (if \<not> isMountedRef s \<or> \<not> isStreamingRef s \<or> \<not> cameraRef s then s
      else if lessNum (now - lastFrameTimeRef s) (frameInterval fps) then s
      else s\<lparr>inFlight := inFlight s @ [(fps, now)]\<rparr>)"

text \<open>\<^verbatim>\<open>captureFrame\<close> from its \<^verbatim>\<open>await\<close> on, with what the camera answered.\<close>

definition captureFrame_resumed :: "nat \<Rightarrow> int \<Rightarrow> captureResult \<Rightarrow> state \<Rightarrow> state" where
  "captureFrame_resumed fps now r s =
     (case r of
        Rejected msg \<Rightarrow> s
      | Resolved None \<Rightarrow> s
      | Resolved (Some ph) \<Rightarrow>
          (case base64 ph of
             None \<Rightarrow> s
           | Some b \<Rightarrow>
               if b \<noteq> [] \<and> wsOpen s then
                 let n = frameCountRef s + 1;
                     s1 = s\<lparr>frameCountRef := n, lastFrameTimeRef := now\<rparr>;
                     s2 = sendIfOpen (Video_frame b n now (width ph) (height ph)) s1;
                     s3 = (if n mod 15 = 0
                           then s2\<lparr>status := sym_camera @ '' Streaming ('' @ showNat fps @
                                               '' FPS) - '' @ showNat n @ '' frames''\<rparr>
                           else s2)
                 in (if n mod 10 = 0 then sendIfOpen (Ack n fps) s3 else s3)
               else s))"

text \<open>\<^verbatim>\<open>startAnalysis\<close> (lines 277-300), with the \<^verbatim>\<open>isConnected\<close> and \<^verbatim>\<open>streamFPS\<close> of its closure.\<close>

definition startAnalysis :: "bool \<Rightarrow> nat \<Rightarrow> state \<Rightarrow> state" where
  "startAnalysis conn fps s =
     (if \<not> conn then
        (connectWebSocket s)\<lparr>timeouts := timeouts s @ [RetryStartAnalysis fps]\<rparr>
      else
        sendIfOpen (Start_video_stream fps 1)
          (s\<lparr>analysisActive := True,
             status := sym_camera @ '' Starting Video Stream ('' @ showNat fps @ '' FPS)...'',
             currentPrediction := None,
             timeouts := timeouts s @ [DelayedStartVideoStream fps]\<rparr>))"

text \<open>\<^verbatim>\<open>stopAnalysis\<close> (lines 302-312)\<close>

definition stopAnalysis :: "state \<Rightarrow> state" where
  "stopAnalysis s =
     sendIfOpen Stop_video_stream
       (stopVideoStream
          (s\<lparr>analysisActive := False,
             status := sym_pause @ '' Ready for Analysis'',
             currentPrediction := None\<rparr>))"

text \<open>\<^verbatim>\<open>fpsOptions.indexOf(streamFPS)\<close>, which is -1 for a value not in the list.\<close>

fun indexOf :: "nat list \<Rightarrow> nat \<Rightarrow> int" where
  "indexOf [] x = - 1"
| "indexOf (y # ys) x =
     (if y = x then 0 else (let i = indexOf ys x in if i < 0 then - 1 else i + 1))"

definition fpsOptions :: "nat list" where
  "fpsOptions = [3, 5, 8, 10]"

text \<open>\<^verbatim>\<open>toggleStreamFPS\<close> (lines 314-330)\<close>

definition toggleStreamFPS :: "state \<Rightarrow> state" where
  "toggleStreamFPS s =
     (let currentIndex = indexOf fpsOptions (streamFPS s);
          nextIndex = (currentIndex + 1) mod int (length fpsOptions);
          newFPS = fpsOptions ! nat nextIndex;
          s1 = s\<lparr>streamFPS := newFPS\<rparr>
      in if analysisActive s then
           (stopVideoStream
              (s1\<lparr>status := sym_arrows @ '' Switching to '' @ showNat newFPS @ '' FPS...''\<rparr>))
             \<lparr>timeouts := timeouts s @ [DelayedRestart (streamFPS s) newFPS]\<rparr>
         else s1)"

fun runTimeout :: "timeout \<Rightarrow> state \<Rightarrow> state" where
  "runTimeout (RetryStartAnalysis fps) s = startAnalysis False fps s"
| "runTimeout (DelayedStartVideoStream fps) s = startVideoStream fps s"
| "runTimeout (DelayedRestart fps newFPS) s =
     (startVideoStream fps s)
       \<lparr>status := sym_camera @ '' Streaming Video ('' @ showNat newFPS @ '' FPS)...''\<rparr>"

text \<open>
  What can happen to a screen: mounting and unmounting, React attaching the camera view,
  the events of a socket, the buttons, a pending timeout firing, a tick of a repeating
  timer (with the clock it reads), a picture in flight coming back. The Start and Stop
  buttons are rendered disabled while the analysis is active and inactive, respectively.
\<close>

datatype event =
    Mount
  | Unmount
  | CameraRef bool
  | WsOpen nat
  | WsMessage nat string "jsval option"
  | WsClose nat
  | WsError nat
  | PressStart
  | PressStop
  | PressFPS
  | PressFlip
  | PressClear
  | Fire nat
  | Tick nat int
  | CaptureReturn nat captureResult

fun step :: "event \<Rightarrow> state \<Rightarrow> state" where
  "step Mount s = connectWebSocket (s\<lparr>isMountedRef := True\<rparr>)"
| "step Unmount s = disconnectWebSocket (s\<lparr>isMountedRef := False\<rparr>)"
| "step (CameraRef b) s = s\<lparr>cameraRef := b\<rparr>"
| "step (WsOpen i) s =
     (if i < length (sockets s) \<and> sockets s ! i = CONNECTING
      then onopen (s\<lparr>sockets := (sockets s)[i := OPEN]\<rparr>) else s)"
| "step (WsMessage i time payload) s =
     (if readyStateOf s i = OPEN \<or> readyStateOf s i = CLOSING
      then onmessage time payload s else s)"
| "step (WsClose i) s =
     (if i < length (sockets s) \<and> sockets s ! i \<noteq> CLOSED
      then onclose (s\<lparr>sockets := (sockets s)[i := CLOSED]\<rparr>) else s)"
| "step (WsError i) s = (if i < length (sockets s) then onerror s else s)"
| "step PressStart s =
     (if analysisActive s then s else startAnalysis (isConnected s) (streamFPS s) s)"
| "step PressStop s = (if analysisActive s then stopAnalysis s else s)"
| "step PressFPS s = toggleStreamFPS s"
| "step PressFlip s = toggleCameraFacing s"
| "step PressClear s = clearHistory s"
| "step (Fire k) s =
     (if k < length (timeouts s)
      then runTimeout (timeouts s ! k) (s\<lparr>timeouts := removeAt k (timeouts s)\<rparr>) else s)"
| "step (Tick t now) s =
     (case map_of (intervals s) t of
        None \<Rightarrow> s
      | Some tm \<Rightarrow> captureFrame (capturedFPS tm) now s)"
| "step (CaptureReturn k r) s =
     (if k < length (inFlight s)
      then captureFrame_resumed (fst (inFlight s ! k)) (snd (inFlight s ! k)) r
             (s\<lparr>inFlight := removeAt k (inFlight s)\<rparr>)
      else s)"

definition run :: "event list \<Rightarrow> state \<Rightarrow> state" where
  "run evs s = foldl (\<lambda>st ev. step ev st) s evs"

section \<open>The screen of modal.tsx\<close>

text \<open>
  The older screen: one fixed timer of 500 ms, no frame rate, no streaming flag. Its
  \<^verbatim>\<open>setInterval\<close> callback and its retry of \<^verbatim>\<open>startAnalysis\<close> capture nothing the model
  has to keep, so pending retries and pictures in flight are counted.
\<close>

definition initialState_modal :: modal_state where
  "initialState_modal =
     \<lparr>facing = Front, analysisActive = False, chatHistory = [], totalPredictions = 0,
      currentPrediction = None, status = sym_arrows @ '' Initializing...'',
      isConnected = False, cameraRef = False, wsRef = None, frameCountRef = 0,
      captureIntervalRef = None, sockets = [], nextTimerId = 1, sent = [],
      intervals_modal = [], timeouts_modal = 0, inFlight_modal = 0, alerts = []\<rparr>"

text \<open>
  \<^verbatim>\<open>handleWebSocketMessage\<close> of \<^verbatim>\<open>modal.tsx\<close> (lines 100-133): \<^verbatim>\<open>switch (data.type)\<close> compares
  with \<^verbatim>\<open>===\<close>.
\<close>

definition handleWebSocketMessage_modal ::
  "string \<Rightarrow> jsval \<Rightarrow> modal_state \<Rightarrow> error + modal_state" where
  "handleWebSocketMessage_modal time data s =
     bindE (getProp data ''type'') (\<lambda>t.
       if t = JStr ''prediction'' then
         bindE (getProp data ''predicted_class'') (\<lambda>pc.
         bindE (getProp data ''confidence'') (\<lambda>cf.
           let prediction = Prediction pc cf time in
           Inr (s\<lparr>currentPrediction := Some prediction,
                  chatHistory := appendHistory (OfPrediction prediction) (chatHistory s),
                  totalPredictions := totalPredictions s + 1\<rparr>)))
       else if t = JStr ''status'' then
         bindE (getProp data ''message'') (\<lambda>m.
         bindE (toStringJs m) (\<lambda>str.
           let systemMessage = SystemMessage m time in
           Inr (s\<lparr>status := sym_lens @ '' '' @ str,
                  chatHistory := appendHistory (OfSystem systemMessage) (chatHistory s)\<rparr>)))
       else if t = JStr ''error'' then
         bindE (getProp data ''message'') (\<lambda>m.
         bindE (toStringJs m) (\<lambda>str.
           Inr (s\<lparr>status := sym_cross @ '' '' @ str,
                  alerts := alerts s @ [(''Analysis Error'', m)]\<rparr>)))
       else Inr s)"

definition onmessage_modal :: "string \<Rightarrow> jsval option \<Rightarrow> modal_state \<Rightarrow> modal_state" where
  "onmessage_modal time payload s =
     (case payload of
        None \<Rightarrow> s
      | Some data \<Rightarrow>
          (case handleWebSocketMessage_modal time data s of Inl e \<Rightarrow> s | Inr s' \<Rightarrow> s'))"

definition clearInterval_modal :: "nat \<Rightarrow> modal_state \<Rightarrow> modal_state" where
  "clearInterval_modal t s = s\<lparr>intervals_modal := filter (\<lambda>i. i \<noteq> t) (intervals_modal s)\<rparr>"

text \<open>\<^verbatim>\<open>disconnectWebSocket\<close> of \<^verbatim>\<open>modal.tsx\<close> (lines 135-144)\<close>

definition disconnectWebSocket_modal :: "modal_state \<Rightarrow> modal_state" where
  "disconnectWebSocket_modal s =
     (let s1 = (case wsRef s of None \<Rightarrow> s | Some i \<Rightarrow> (wsClose i s)\<lparr>wsRef := None\<rparr>)
      in case captureIntervalRef s1 of
           None \<Rightarrow> s1
         | Some t \<Rightarrow> (clearInterval_modal t s1)\<lparr>captureIntervalRef := None\<rparr>)"

text \<open>\<^verbatim>\<open>captureFrame\<close> of \<^verbatim>\<open>modal.tsx\<close> up to its \<^verbatim>\<open>await\<close>.\<close>

definition captureFrame_modal :: "modal_state \<Rightarrow> modal_state" where
  "captureFrame_modal s =
     (if \<not> cameraRef s \<or> \<not> wsOpen s then s
      else s\<lparr>inFlight_modal := inFlight_modal s + 1\<rparr>)"

text \<open>
  From the \<^verbatim>\<open>await\<close> on. The sends are not guarded here: \<^verbatim>\<open>wsRef.current\<close> may be null by
  now, or a socket that throws; the \<^verbatim>\<open>catch\<close> logs it, and the counter stays incremented.
\<close>

definition captureFrame_resumed_modal :: "captureResult \<Rightarrow> modal_state \<Rightarrow> modal_state" where
  "captureFrame_resumed_modal r s =
     (case r of
        Rejected msg \<Rightarrow> s
      | Resolved None \<Rightarrow> s
      | Resolved (Some ph) \<Rightarrow>
          (case base64 ph of
             None \<Rightarrow> s
           | Some b \<Rightarrow>
               if b = [] then s
               else
                 let s1 = s\<lparr>frameCountRef := frameCountRef s + 1\<rparr> in
                 (case wsRef s1 of
                    None \<Rightarrow> s1
                  | Some i \<Rightarrow>
                      (case wsSend i (Frame_modal b) s1 of
                         Inl e \<Rightarrow> s1
                       | Inr s2 \<Rightarrow>
                           if frameCountRef s2 mod 5 = 0 then
                             (case wsSend i (Ack_modal (frameCountRef s2)) s2 of
                                Inl e \<Rightarrow> s2
                              | Inr s3 \<Rightarrow> s3)
                           else s2))))"

text \<open>\<^verbatim>\<open>startAnalysis\<close> of \<^verbatim>\<open>modal.tsx\<close> (lines 179-200): the new timer replaces the handle in \<^verbatim>\<open>captureIntervalRef\<close> without clearing the old one.\<close>

definition startAnalysis_modal :: "bool \<Rightarrow> modal_state \<Rightarrow> modal_state" where
  "startAnalysis_modal conn s =
     (if \<not> conn then
        (connectWebSocket s)\<lparr>timeouts_modal := timeouts_modal s + 1\<rparr>
      else
        sendIfOpen (Start_modal 1)
          (s\<lparr>analysisActive := True,
             status := sym_lens @ '' Analyzing Live Video...'',
             currentPrediction := None,
             intervals_modal := intervals_modal s @ [nextTimerId s],
             captureIntervalRef := Some (nextTimerId s),
             nextTimerId := nextTimerId s + 1\<rparr>))"

text \<open>\<^verbatim>\<open>stopAnalysis\<close> of \<^verbatim>\<open>modal.tsx\<close> (lines 202-216)\<close>

definition stopAnalysis_modal :: "modal_state \<Rightarrow> modal_state" where
  "stopAnalysis_modal s =
     (let s1 = s\<lparr>analysisActive := False,
                 status := sym_pause @ '' Ready for Analysis'',
                 currentPrediction := None\<rparr>;
          s2 = (case captureIntervalRef s1 of
                  None \<Rightarrow> s1
                | Some t \<Rightarrow> (clearInterval_modal t s1)\<lparr>captureIntervalRef := None\<rparr>)
      in sendIfOpen Stop_modal s2)"

text \<open>The same events; \<^verbatim>\<open>modal.tsx\<close> has no frame rate button.\<close>

fun step_modal :: "event \<Rightarrow> modal_state \<Rightarrow> modal_state" where
  "step_modal Mount s = connectWebSocket s"
| "step_modal Unmount s = disconnectWebSocket_modal s"
| "step_modal (CameraRef b) s = s\<lparr>cameraRef := b\<rparr>"
| "step_modal (WsOpen i) s =
     (if i < length (sockets s) \<and> sockets s ! i = CONNECTING
      then onopen (s\<lparr>sockets := (sockets s)[i := OPEN]\<rparr>) else s)"
| "step_modal (WsMessage i time payload) s =
     (if readyStateOf s i = OPEN \<or> readyStateOf s i = CLOSING
      then onmessage_modal time payload s else s)"
| "step_modal (WsClose i) s =
     (if i < length (sockets s) \<and> sockets s ! i \<noteq> CLOSED
      then onclose (s\<lparr>sockets := (sockets s)[i := CLOSED]\<rparr>) else s)"
| "step_modal (WsError i) s = (if i < length (sockets s) then onerror s else s)"
| "step_modal PressStart s =
     (if analysisActive s then s else startAnalysis_modal (isConnected s) s)"
| "step_modal PressStop s = (if analysisActive s then stopAnalysis_modal s else s)"
| "step_modal PressFPS s = s"
| "step_modal PressFlip s = toggleCameraFacing s"
| "step_modal PressClear s = clearHistory s"
| "step_modal (Fire k) s =
     (if k < timeouts_modal s
      then startAnalysis_modal False (s\<lparr>timeouts_modal := timeouts_modal s - 1\<rparr>) else s)"
| "step_modal (Tick t now) s =
     (if t \<in> set (intervals_modal s) then captureFrame_modal s else s)"
| "step_modal (CaptureReturn k r) s =
     (if k < inFlight_modal s
      then captureFrame_resumed_modal r (s\<lparr>inFlight_modal := inFlight_modal s - 1\<rparr>)
      else s)"

definition run_modal :: "event list \<Rightarrow> modal_state \<Rightarrow> modal_state" where
  "run_modal evs s = foldl (\<lambda>st ev. step_modal ev st) s evs"

section \<open>Observations used to state the properties\<close>

text \<open>
  The entries one inbound message puts into the history: what \<^verbatim>\<open>ws.onmessage\<close> leaves in
  the history of a screen that starts with an empty one.
\<close>

definition appended :: "string \<Rightarrow> jsval option \<Rightarrow> ChatMessage list" where
  "appended time payload = chatHistory (onmessage time payload initialState)"

definition appended_modal :: "string \<Rightarrow> jsval option \<Rightarrow> ChatMessage list" where
  "appended_modal time payload = chatHistory (onmessage_modal time payload initialState_modal)"

definition handleAll :: "(string \<times> jsval option) list \<Rightarrow> state \<Rightarrow> state" where
  "handleAll msgs s = foldl (\<lambda>st m. onmessage (fst m) (snd m) st) s msgs"

definition handleAll_modal :: "(string \<times> jsval option) list \<Rightarrow> modal_state \<Rightarrow> modal_state" where
  "handleAll_modal msgs s = foldl (\<lambda>st m. onmessage_modal (fst m) (snd m) st) s msgs"

definition appendAll :: "ChatMessage list \<Rightarrow> ChatMessage list \<Rightarrow> ChatMessage list" where
  "appendAll es h = foldl (\<lambda>prev e. appendHistory e prev) h es"

text \<open>
  The frame rate held in closures: the one a pending timeout will start or restart the
  scheduler with, and whether every running timer, every picture in flight and every
  pending timeout holds the current \<^verbatim>\<open>streamFPS\<close>.
\<close>

fun timeoutFPS :: "timeout \<Rightarrow> nat" where
  "timeoutFPS (RetryStartAnalysis fps) = fps"
| "timeoutFPS (DelayedStartVideoStream fps) = fps"
| "timeoutFPS (DelayedRestart fps newFPS) = fps"

definition fps_coherent :: "state \<Rightarrow> bool" where
  "fps_coherent s =
     (list_all (\<lambda>e. capturedFPS (snd e) = streamFPS s) (intervals s) \<and>
      list_all (\<lambda>c. fst c = streamFPS s) (inFlight s) \<and>
      list_all (\<lambda>t. timeoutFPS t = streamFPS s) (timeouts s))"

text \<open>Inbound payloads, as \<^verbatim>\<open>JSON.parse\<close> returns them, used as examples.\<close>

definition predictionData :: "string \<Rightarrow> jsval" where
  "predictionData c =
     JObj [(''type'', JStr ''prediction''), (''predicted_class'', JStr c),
           (''confidence'', JNum ''0.9'')]"

definition errorData :: jsval where
  "errorData = JObj [(''type'', JStr ''error''), (''message'', JStr ''model unavailable'')]"

definition statusData :: jsval where
  "statusData = JObj [(''type'', JStr ''status''), (''message'', JStr ''warming up'')]"

definition actionData :: jsval where
  "actionData =
     JObj [(''action'', JStr ''Prediction''), (''predicted_class'', JStr ''cavity''),
           (''confidence'', JNum ''0.9'')]"

definition msg_typeData :: jsval where
  "msg_typeData = JObj [(''msg_type'', JStr ''STATUS''), (''message'', JStr ''warming up'')]"

definition ackData :: jsval where
  "ackData = JObj [(''action'', JStr ''ack''), (''frame_count'', JNum ''10'')]"

definition sample_messages :: "(string \<times> jsval option) list" where
  "sample_messages =
     map (\<lambda>c. (''10:00:00'', Some (predictionData c)))
       [''cavity'', ''healthy'', ''cavity'', ''healthy'', ''cavity'', ''healthy'',
        ''cavity'', ''healthy'', ''cavity'', ''healthy'', ''cavity'', ''healthy''] @
     [(''10:00:01'', Some errorData), (''10:00:02'', Some statusData)]"

text \<open>
  States used as examples, each reached from the initial state by the events listed:
  the screen mounts, React attaches the camera, the socket opens, Start is pressed, the
  delayed \<^verbatim>\<open>startVideoStream\<close> runs, ticks fire and pictures come back; in the last one
  Stop is pressed after the first frame and the server's answer to that frame arrives.
\<close>

definition sample_photo :: photo where
  "sample_photo = \<lparr>base64 = Some ''QUJD'', width = 640, height = 480\<rparr>"

definition streaming_state :: state where
  "streaming_state = run [Mount, CameraRef True, WsOpen 0, PressStart, Fire 0] initialState"

definition started_state :: state where
  "started_state = run [Mount, CameraRef True, WsOpen 0, PressStart] initialState"

definition after_first_frame :: state where
  "after_first_frame =
     run [Tick 1 1700000000000, CaptureReturn 0 (Resolved (Some sample_photo))] streaming_state"

definition modal_streaming :: modal_state where
  "modal_streaming =
     run_modal [Mount, CameraRef True, WsOpen 0, PressStart] initialState_modal"

definition modal_after_frame :: modal_state where
  "modal_after_frame =
     run_modal [Tick 1 1700000000000, CaptureReturn 0 (Resolved (Some sample_photo)), PressStop]
       modal_streaming"

definition nine_frames :: state where
  "nine_frames =
     run (concat (map (\<lambda>k. [Tick 1 (1700000000000 + 200 * int k),
                              CaptureReturn 0 (Resolved (Some sample_photo))]) [0..<9]))
       streaming_state"

definition tenth_in_flight :: state where
  "tenth_in_flight = step (Tick 1 1700000001800) nine_frames"

definition modal_four_frames :: modal_state where
  "modal_four_frames =
     run_modal (concat (replicate 4 [Tick 1 1700000000000,
                                     CaptureReturn 0 (Resolved (Some sample_photo))]))
       modal_streaming"

definition late_prediction :: state where
  "late_prediction =
     run [PressStop, WsMessage 0 ''10:00:00'' (Some (predictionData ''cavity''))]
       after_first_frame"

definition events_to_tenth :: "event list" where
  "events_to_tenth =
     [Mount, CameraRef True, WsOpen 0, PressStart, Fire 0] @
     concat (map (\<lambda>k. [Tick 1 (1700000000000 + 200 * int k),
                          CaptureReturn 0 (Resolved (Some sample_photo))]) [0..<9]) @
     [Tick 1 1700000001800]"

section \<open>The history buffer\<close>

lemma length_appendHistory: "length (appendHistory e h) = min (length h) 11 + 1"
  by (simp add: appendHistory_def slice_last_def)

lemma appendHistory_slice: "appendHistory e h = slice_last 12 (h @ [e])"
  by (simp add: appendHistory_def slice_last_def)

lemma slice_last_snoc: "slice_last 12 (slice_last 12 xs @ [e]) = slice_last 12 (xs @ [e])"
proof -
  have "length xs - (length xs - 12 + 11) + (length xs - 12) = length xs - 11"
    by arith
  then show ?thesis by (simp add: slice_last_def)
qed

lemma appendAll_snoc: "appendAll (es @ [e]) h = appendHistory e (appendAll es h)"
  by (simp add: appendAll_def)

lemma appendAll_slice: "es \<noteq> [] \<Longrightarrow> appendAll es h = slice_last 12 (h @ es)"
proof (induction es rule: rev_induct)
  case Nil
  then show ?case by simp
next
  case (snoc e es)
  show ?case
  proof (cases "es = []")
    case True
    then show ?thesis by (simp add: appendAll_def appendHistory_slice)
  next
    case False
    with snoc.IH have "appendAll es h = slice_last 12 (h @ es)" by simp
    then show ?thesis
      using slice_last_snoc [of "h @ es" e] by (simp add: appendAll_snoc appendHistory_slice)
  qed
qed

lemma appendAll_last_12:
  assumes "12 \<le> length es"
  shows "appendAll es h = drop (length es - 12) es"
proof -
  from assms have "es \<noteq> []" by auto
  then have "appendAll es h = slice_last 12 (h @ es)" by (rule appendAll_slice)
  also from assms have "\<dots> = drop (length es - 12) es" by (simp add: slice_last_def)
  finally show ?thesis .
qed

lemma handle_appends:
  "handleWebSocketMessage time data s = Inr s' \<Longrightarrow>
   handleWebSocketMessage time data t = Inr t' \<Longrightarrow>
   chatHistory t = [] \<Longrightarrow>
   chatHistory s' = appendAll (chatHistory t') (chatHistory s)"
  by (auto simp: handleWebSocketMessage_def bindE_def Let_def appendAll_def appendHistory_def
       slice_last_def split: sum.splits if_splits)

lemma handle_fails_alike:
  "handleWebSocketMessage time data s = Inl e \<Longrightarrow> handleWebSocketMessage time data t = Inl e"
  by (auto simp: handleWebSocketMessage_def bindE_def Let_def split: sum.splits if_splits)

lemma onmessage_appends:
  "chatHistory (onmessage time payload s) = appendAll (appended time payload) (chatHistory s)"
proof (cases payload)
  case None
  then show ?thesis by (simp add: onmessage_def appended_def appendAll_def initialState_def)
next
  case (Some data)
  show ?thesis
  proof (cases "handleWebSocketMessage time data s")
    case (Inl e)
    then have "handleWebSocketMessage time data initialState = Inl e"
      by (rule handle_fails_alike)
    with Inl Some show ?thesis
      by (simp add: onmessage_def appended_def appendAll_def initialState_def)
  next
    case (Inr s')
    show ?thesis
    proof (cases "handleWebSocketMessage time data initialState")
      case (Inl e)
      then have "handleWebSocketMessage time data s = Inl e" by (rule handle_fails_alike)
      with Inr show ?thesis by simp
    next
      case r: (Inr t')
      have "chatHistory initialState = []" by (simp add: initialState_def)
      with Inr r have "chatHistory s' = appendAll (chatHistory t') (chatHistory s)"
        by (rule handle_appends)
      with Inr r Some show ?thesis by (simp add: onmessage_def appended_def)
    qed
  qed
qed

lemma appendAll_append: "appendAll (xs @ ys) h = appendAll ys (appendAll xs h)"
  by (simp add: appendAll_def)

lemma handleAll_history:
  "chatHistory (handleAll msgs s) =
   appendAll (concat (map (\<lambda>m. appended (fst m) (snd m)) msgs)) (chatHistory s)"
proof (induction msgs arbitrary: s)
  case Nil
  then show ?case by (simp add: handleAll_def appendAll_def)
next
  case (Cons m msgs)
  have "handleAll (m # msgs) s = handleAll msgs (onmessage (fst m) (snd m) s)"
    by (simp add: handleAll_def)
  then show ?case
    by (simp add: Cons.IH onmessage_appends appendAll_append)
qed

lemma handle_appends_modal:
  "handleWebSocketMessage_modal time data s = Inr s' \<Longrightarrow>
   handleWebSocketMessage_modal time data t = Inr t' \<Longrightarrow>
   chatHistory t = [] \<Longrightarrow>
   chatHistory s' = appendAll (chatHistory t') (chatHistory s)"
  by (auto simp: handleWebSocketMessage_modal_def bindE_def Let_def appendAll_def
       appendHistory_def slice_last_def split: sum.splits if_splits)

lemma handle_fails_alike_modal:
  "handleWebSocketMessage_modal time data s = Inl e \<Longrightarrow>
   handleWebSocketMessage_modal time data t = Inl e"
  by (auto simp: handleWebSocketMessage_modal_def bindE_def Let_def split: sum.splits if_splits)

lemma onmessage_appends_modal:
  "chatHistory (onmessage_modal time payload s) =
   appendAll (appended_modal time payload) (chatHistory s)"
proof (cases payload)
  case None
  then show ?thesis
    by (simp add: onmessage_modal_def appended_modal_def appendAll_def initialState_modal_def)
next
  case (Some data)
  show ?thesis
  proof (cases "handleWebSocketMessage_modal time data s")
    case (Inl e)
    then have "handleWebSocketMessage_modal time data initialState_modal = Inl e"
      by (rule handle_fails_alike_modal)
    with Inl Some show ?thesis
      by (simp add: onmessage_modal_def appended_modal_def appendAll_def initialState_modal_def)
  next
    case (Inr s')
    show ?thesis
    proof (cases "handleWebSocketMessage_modal time data initialState_modal")
      case (Inl e)
      then have "handleWebSocketMessage_modal time data s = Inl e"
        by (rule handle_fails_alike_modal)
      with Inr show ?thesis by simp
    next
      case r: (Inr t')
      have "chatHistory initialState_modal = []" by (simp add: initialState_modal_def)
      with Inr r have "chatHistory s' = appendAll (chatHistory t') (chatHistory s)"
        by (rule handle_appends_modal)
      with Inr r Some show ?thesis by (simp add: onmessage_modal_def appended_modal_def)
    qed
  qed
qed

lemma handleAll_history_modal:
  "chatHistory (handleAll_modal msgs s) =
   appendAll (concat (map (\<lambda>m. appended_modal (fst m) (snd m)) msgs)) (chatHistory s)"
proof (induction msgs arbitrary: s)
  case Nil
  then show ?case by (simp add: handleAll_modal_def appendAll_def)
next
  case (Cons m msgs)
  have "handleAll_modal (m # msgs) s = handleAll_modal msgs (onmessage_modal (fst m) (snd m) s)"
    by (simp add: handleAll_modal_def)
  then show ?case
    by (simp add: Cons.IH onmessage_appends_modal appendAll_append)
qed

lemma appendAll_length: "length h \<le> 12 \<Longrightarrow> length (appendAll es h) \<le> 12"
  by (induction es rule: rev_induct) (simp_all add: appendAll_def length_appendHistory)

lemma sendIfOpen_history [simp]: "chatHistory (sendIfOpen m s) = chatHistory s"
  by (simp add: sendIfOpen_def split: option.splits)

lemma stopVideoStream_history [simp]: "chatHistory (stopVideoStream s) = chatHistory s"
  by (simp add: stopVideoStream_def clearInterval_def Let_def split: option.splits)

lemma startVideoStream_history [simp]: "chatHistory (startVideoStream fps s) = chatHistory s"
  by (simp add: startVideoStream_def clearInterval_def Let_def split: option.splits)

lemma captureFrame_resumed_history [simp]:
  "chatHistory (captureFrame_resumed fps now r s) = chatHistory s"
  by (simp add: captureFrame_resumed_def Let_def split: captureResult.splits option.splits)

lemma captureFrame_resumed_modal_history [simp]:
  "chatHistory (captureFrame_resumed_modal r s) = chatHistory s"
  by (simp add: captureFrame_resumed_modal_def wsSend_def Let_def
       split: captureResult.splits option.splits readyState.splits)

lemma step_history_le:
  assumes "length (chatHistory s) \<le> 12"
  shows "length (chatHistory (step ev s)) \<le> 12"
proof (cases ev)
  case (WsMessage i time payload)
  with assms show ?thesis by (simp add: onmessage_appends appendAll_length)
next
  case (Fire k)
  with assms show ?thesis
    by (cases "timeouts s ! k") (simp_all add: startAnalysis_def connectWebSocket_def)
qed (use assms in \<open>simp_all add: connectWebSocket_def disconnectWebSocket_def onopen_def
       onclose_def onerror_def startAnalysis_def stopAnalysis_def toggleStreamFPS_def Let_def
       toggleCameraFacing_def clearHistory_def captureFrame_def wsClose_def
       split: option.splits\<close>)

lemma step_modal_history_le:
  assumes "length (chatHistory s) \<le> 12"
  shows "length (chatHistory (step_modal ev s)) \<le> 12"
proof (cases ev)
  case (WsMessage i time payload)
  with assms show ?thesis by (simp add: onmessage_appends_modal appendAll_length)
qed (use assms in \<open>simp_all add: connectWebSocket_def disconnectWebSocket_modal_def onopen_def
       onclose_def onerror_def startAnalysis_modal_def stopAnalysis_modal_def Let_def
       toggleCameraFacing_def clearHistory_def captureFrame_modal_def wsClose_def
       clearInterval_modal_def split: option.splits\<close>)

lemma run_history_le: "length (chatHistory s) \<le> 12 \<Longrightarrow> length (chatHistory (run evs s)) \<le> 12"
  unfolding run_def by (induction evs arbitrary: s) (simp_all add: step_history_le)

lemma run_modal_history_le:
  "length (chatHistory s) \<le> 12 \<Longrightarrow> length (chatHistory (run_modal evs s)) \<le> 12"
  unfolding run_modal_def by (induction evs arbitrary: s) (simp_all add: step_modal_history_le)

text \<open>
  Claim C3. In every state either screen can reach, the history holds at most 12
  entries. And when the inbound messages handled one after the other append N entries,
  N at least 12, to whatever history there was, the history is then exactly the last 12
  of them, in the order they arrived: the oldest went first. (In \<^verbatim>\<open>index.tsx\<close>
  predictions, status and error messages append an entry; in \<^verbatim>\<open>modal.tsx\<close> predictions
  and status messages do.)
\<close>

theorem history_keeps_last_12:
  "length (chatHistory (run evs initialState)) \<le> 12 \<and>
   length (chatHistory (run_modal evs initialState_modal)) \<le> 12 \<and>
   (12 \<le> length (concat (map (\<lambda>m. appended (fst m) (snd m)) msgs)) \<longrightarrow>
      length (chatHistory (handleAll msgs s)) = 12 \<and>
      chatHistory (handleAll msgs s) =
        drop (length (concat (map (\<lambda>m. appended (fst m) (snd m)) msgs)) - 12)
          (concat (map (\<lambda>m. appended (fst m) (snd m)) msgs))) \<and>
   (12 \<le> length (concat (map (\<lambda>m. appended_modal (fst m) (snd m)) msgs')) \<longrightarrow>
      length (chatHistory (handleAll_modal msgs' s')) = 12 \<and>
      chatHistory (handleAll_modal msgs' s') =
        drop (length (concat (map (\<lambda>m. appended_modal (fst m) (snd m)) msgs')) - 12)
          (concat (map (\<lambda>m. appended_modal (fst m) (snd m)) msgs')))"
proof (intro conjI impI)
  show "length (chatHistory (run evs initialState)) \<le> 12"
    by (rule run_history_le) (simp add: initialState_def)
  show "length (chatHistory (run_modal evs initialState_modal)) \<le> 12"
    by (rule run_modal_history_le) (simp add: initialState_modal_def)
next
  assume h: "12 \<le> length (concat (map (\<lambda>m. appended (fst m) (snd m)) msgs))"
  then show "chatHistory (handleAll msgs s) =
        drop (length (concat (map (\<lambda>m. appended (fst m) (snd m)) msgs)) - 12)
          (concat (map (\<lambda>m. appended (fst m) (snd m)) msgs))"
    by (simp only: handleAll_history appendAll_last_12)
  with h show "length (chatHistory (handleAll msgs s)) = 12" by simp
next
  assume h: "12 \<le> length (concat (map (\<lambda>m. appended_modal (fst m) (snd m)) msgs'))"
  then show "chatHistory (handleAll_modal msgs' s') =
        drop (length (concat (map (\<lambda>m. appended_modal (fst m) (snd m)) msgs')) - 12)
          (concat (map (\<lambda>m. appended_modal (fst m) (snd m)) msgs'))"
    by (simp only: handleAll_history_modal appendAll_last_12)
  with h show "length (chatHistory (handleAll_modal msgs' s')) = 12" by simp
qed

lemma sample_len: "length (concat (map (\<lambda>m. appended (fst m) (snd m)) sample_messages)) = 14"
  by code_simp

lemma sample_len_modal:
  "length (concat (map (\<lambda>m. appended_modal (fst m) (snd m)) sample_messages)) = 13"
  by code_simp

theorem history_keeps_last_12_witness:
  "12 \<le> length (concat (map (\<lambda>m. appended (fst m) (snd m)) sample_messages)) \<and>
   12 \<le> length (concat (map (\<lambda>m. appended_modal (fst m) (snd m)) sample_messages)) \<and>
   length (chatHistory (handleAll sample_messages initialState)) = 12 \<and>
   chatHistory (handleAll sample_messages initialState) =
     drop 2 (concat (map (\<lambda>m. appended (fst m) (snd m)) sample_messages)) \<and>
   length (chatHistory (handleAll_modal sample_messages initialState_modal)) = 12 \<and>
   chatHistory (handleAll_modal sample_messages initialState_modal) =
     drop 1 (concat (map (\<lambda>m. appended_modal (fst m) (snd m)) sample_messages))"
proof -
  have h: "12 \<le> length (concat (map (\<lambda>m. appended (fst m) (snd m)) sample_messages))"
    by (simp add: sample_len)
  have h': "12 \<le> length (concat (map (\<lambda>m. appended_modal (fst m) (snd m)) sample_messages))"
    by (simp add: sample_len_modal)
  from h h'
    history_keeps_last_12 [of "[]" sample_messages initialState sample_messages
      initialState_modal]
  show ?thesis by (simp add: sample_len sample_len_modal)
qed

section \<open>Clearing the history\<close>

text \<open>
  Claim C10. \<^verbatim>\<open>clearHistory\<close>, the same in both screens, empties the history, sets the
  count of predictions to 0 and the current prediction to null, and leaves every other
  field as it was: \<^verbatim>\<open>analysisActive\<close>, the connection (\<^verbatim>\<open>isConnected\<close>, the socket in
  \<^verbatim>\<open>wsRef\<close> and the sockets themselves), the frame count, the frame rate, the status, the
  scheduler's refs and timers, and the messages sent.
\<close>

theorem clearHistory_frame:
  fixes s :: state and m :: modal_state
  shows
  "chatHistory (clearHistory s) = [] \<and> totalPredictions (clearHistory s) = 0 \<and>
   currentPrediction (clearHistory s) = None \<and>
   analysisActive (clearHistory s) = analysisActive s \<and>
   isConnected (clearHistory s) = isConnected s \<and>
   wsRef (clearHistory s) = wsRef s \<and> sockets (clearHistory s) = sockets s \<and>
   frameCountRef (clearHistory s) = frameCountRef s \<and>
   streamFPS (clearHistory s) = streamFPS s \<and>
   facing (clearHistory s) = facing s \<and> status (clearHistory s) = status s \<and>
   cameraRef (clearHistory s) = cameraRef s \<and>
   captureIntervalRef (clearHistory s) = captureIntervalRef s \<and>
   nextTimerId (clearHistory s) = nextTimerId s \<and> sent (clearHistory s) = sent s \<and>
   errorAlertShownRef (clearHistory s) = errorAlertShownRef s \<and>
   isStreamingRef (clearHistory s) = isStreamingRef s \<and>
   lastFrameTimeRef (clearHistory s) = lastFrameTimeRef s \<and>
   isMountedRef (clearHistory s) = isMountedRef s \<and>
   intervals (clearHistory s) = intervals s \<and> timeouts (clearHistory s) = timeouts s \<and>
   inFlight (clearHistory s) = inFlight s \<and>
   chatHistory (clearHistory m) = [] \<and> totalPredictions (clearHistory m) = 0 \<and>
   currentPrediction (clearHistory m) = None \<and>
   analysisActive (clearHistory m) = analysisActive m \<and>
   isConnected (clearHistory m) = isConnected m \<and>
   wsRef (clearHistory m) = wsRef m \<and> sockets (clearHistory m) = sockets m \<and>
   frameCountRef (clearHistory m) = frameCountRef m \<and>
   facing (clearHistory m) = facing m \<and> status (clearHistory m) = status m \<and>
   cameraRef (clearHistory m) = cameraRef m \<and>
   captureIntervalRef (clearHistory m) = captureIntervalRef m \<and>
   nextTimerId (clearHistory m) = nextTimerId m \<and> sent (clearHistory m) = sent m \<and>
   intervals_modal (clearHistory m) = intervals_modal m \<and>
   timeouts_modal (clearHistory m) = timeouts_modal m \<and>
   inFlight_modal (clearHistory m) = inFlight_modal m \<and>
   alerts (clearHistory m) = alerts m"
  by (simp add: clearHistory_def)

section \<open>Field-by-field effects of the handlers\<close>

lemma sendIfOpen_eq:
  "sendIfOpen m s =
   s\<lparr>sent := sent s @ (case wsRef s of None \<Rightarrow> []
                         | Some i \<Rightarrow> if readyStateOf s i = OPEN then [(i, m)] else [])\<rparr>"
  by (cases "wsRef s") (simp_all add: sendIfOpen_def)

lemma sendIfOpen_sent:
  "sent (sendIfOpen m s) =
   sent s @ (case wsRef s of None \<Rightarrow> []
             | Some i \<Rightarrow> if readyStateOf s i = OPEN then [(i, m)] else [])"
  by (simp add: sendIfOpen_def split: option.splits)

lemma sendIfOpen_frameCount [simp]: "frameCountRef (sendIfOpen m s) = frameCountRef s"
  by (simp add: sendIfOpen_def split: option.splits)

lemma sendIfOpen_currentPrediction [simp]:
  "currentPrediction (sendIfOpen m s) = currentPrediction s"
  by (simp add: sendIfOpen_def split: option.splits)

lemma readyStateOf_fields [simp]:
  "readyStateOf (s\<lparr>frameCountRef := n\<rparr>) = readyStateOf s"
  "readyStateOf (s\<lparr>status := st\<rparr>) = readyStateOf s"
  "readyStateOf (s\<lparr>sent := ms\<rparr>) = readyStateOf s"
  "readyStateOf (s\<lparr>analysisActive := a\<rparr>) = readyStateOf s"
  "readyStateOf (s\<lparr>currentPrediction := p\<rparr>) = readyStateOf s"
  "readyStateOf (s\<lparr>captureIntervalRef := c\<rparr>) = readyStateOf s"
  "readyStateOf (s\<lparr>nextTimerId := n\<rparr>) = readyStateOf s"
  by (simp_all add: readyStateOf_def fun_eq_iff)

lemma readyStateOf_state_fields [simp]:
  fixes s :: state
  shows "readyStateOf (s\<lparr>lastFrameTimeRef := t\<rparr>) = readyStateOf s"
    and "readyStateOf (s\<lparr>inFlight := fl\<rparr>) = readyStateOf s"
    and "readyStateOf (s\<lparr>timeouts := ts\<rparr>) = readyStateOf s"
    and "readyStateOf (s\<lparr>isStreamingRef := b\<rparr>) = readyStateOf s"
    and "readyStateOf (s\<lparr>intervals := iv\<rparr>) = readyStateOf s"
  by (simp_all add: readyStateOf_def fun_eq_iff)

lemma readyStateOf_modal_fields [simp]:
  fixes s :: modal_state
  shows "readyStateOf (s\<lparr>inFlight_modal := k\<rparr>) = readyStateOf s"
    and "readyStateOf (s\<lparr>timeouts_modal := k\<rparr>) = readyStateOf s"
    and "readyStateOf (s\<lparr>intervals_modal := iv\<rparr>) = readyStateOf s"
    and "readyStateOf (s\<lparr>alerts := al\<rparr>) = readyStateOf s"
  by (simp_all add: readyStateOf_def fun_eq_iff)

lemma stopVideoStream_eq:
  "stopVideoStream s =
   s\<lparr>isStreamingRef := False,
     intervals := (case captureIntervalRef s of
                     None \<Rightarrow> intervals s
                   | Some t \<Rightarrow> filter (\<lambda>e. fst e \<noteq> t) (intervals s)),
     captureIntervalRef := None,
     lastFrameTimeRef := 0\<rparr>"
  by (cases "captureIntervalRef s") (simp_all add: stopVideoStream_def clearInterval_def Let_def)

lemma stopVideoStream_frameCount [simp]: "frameCountRef (stopVideoStream s) = frameCountRef s"
  by (simp add: stopVideoStream_def clearInterval_def Let_def split: option.splits)

lemma stopVideoStream_sent [simp]: "sent (stopVideoStream s) = sent s"
  by (simp add: stopVideoStream_def clearInterval_def Let_def split: option.splits)

lemma stopVideoStream_currentPrediction [simp]:
  "currentPrediction (stopVideoStream s) = currentPrediction s"
  by (simp add: stopVideoStream_def clearInterval_def Let_def split: option.splits)

lemma startVideoStream_sent [simp]: "sent (startVideoStream fps s) = sent s"
  by (simp add: startVideoStream_def clearInterval_def Let_def split: option.splits)

lemma startVideoStream_currentPrediction [simp]:
  "currentPrediction (startVideoStream fps s) = currentPrediction s"
  by (simp add: startVideoStream_def clearInterval_def Let_def split: option.splits)

lemma startVideoStream_starts:
  "cameraRef s \<Longrightarrow> wsOpen s \<Longrightarrow>
   frameCountRef (startVideoStream fps s) = 0 \<and> isStreamingRef (startVideoStream fps s)"
  by (simp add: startVideoStream_def clearInterval_def Let_def split: option.splits)

lemma startVideoStream_refused:
  "\<not> (cameraRef s \<and> wsOpen s) \<Longrightarrow> startVideoStream fps s = s"
  by (auto simp add: startVideoStream_def)

lemma startVideoStream_frameCount:
  "frameCountRef (startVideoStream fps s) = frameCountRef s \<or>
   frameCountRef (startVideoStream fps s) = 0 \<and> isStreamingRef (startVideoStream fps s)"
  using startVideoStream_starts [of s fps] startVideoStream_refused [of s fps]
  by (cases "cameraRef s \<and> wsOpen s") auto

lemma captureFrame_resumed_accepted:
  assumes "base64 ph = Some b" "b \<noteq> []" "wsRef s = Some i" "readyStateOf s i = OPEN"
  shows "frameCountRef (captureFrame_resumed fps now (Resolved (Some ph)) s) = frameCountRef s + 1"
    and "sent (captureFrame_resumed fps now (Resolved (Some ph)) s) =
         sent s @ [(i, Video_frame b (frameCountRef s + 1) now (width ph) (height ph))] @
         (if (frameCountRef s + 1) mod 10 = 0 then [(i, Ack (frameCountRef s + 1) fps)] else [])"
  using assms
  by (simp_all add: captureFrame_resumed_def wsOpen_def sendIfOpen_def Let_def)

lemma captureFrame_resumed_cases:
  "captureFrame_resumed fps now r s = s \<or>
   (\<exists>ph b i. r = Resolved (Some ph) \<and> base64 ph = Some b \<and> b \<noteq> [] \<and> wsRef s = Some i \<and>
      readyStateOf s i = OPEN)"
  by (auto simp: captureFrame_resumed_def wsOpen_def split: captureResult.splits option.splits)

lemma captureFrame_resumed_frameCount:
  "frameCountRef (captureFrame_resumed fps now r s) = frameCountRef s \<or>
   frameCountRef (captureFrame_resumed fps now r s) = frameCountRef s + 1 \<and>
   length (sent s) < length (sent (captureFrame_resumed fps now r s))"
  using captureFrame_resumed_cases [of fps now r s] captureFrame_resumed_accepted [of _ _ s _ fps now]
  by auto

lemma captureFrame_resumed_sent:
  "sent (captureFrame_resumed fps now r s) = sent s \<or>
   (\<exists>ph b i. r = Resolved (Some ph) \<and> base64 ph = Some b \<and> b \<noteq> [] \<and> wsRef s = Some i \<and>
      readyStateOf s i = OPEN \<and>
      frameCountRef (captureFrame_resumed fps now r s) = frameCountRef s + 1 \<and>
      sent (captureFrame_resumed fps now r s) =
        sent s @ [(i, Video_frame b (frameCountRef s + 1) now (width ph) (height ph))] @
        (if (frameCountRef s + 1) mod 10 = 0 then [(i, Ack (frameCountRef s + 1) fps)] else []))"
  using captureFrame_resumed_cases [of fps now r s]
    captureFrame_resumed_accepted [of _ _ s _ fps now]
  by (elim disjE exE conjE) (simp, blast)

lemma captureFrame_resumed_currentPrediction [simp]:
  "currentPrediction (captureFrame_resumed fps now r s) = currentPrediction s"
  by (simp add: captureFrame_resumed_def Let_def split: captureResult.splits option.splits)

lemma startAnalysis_modal_frameCount:
  "frameCountRef (startAnalysis_modal conn m) = frameCountRef m"
  by (simp add: startAnalysis_modal_def connectWebSocket_def)

lemma captureFrame_resumed_modal_data:
  "base64 ph = Some b \<Longrightarrow> b \<noteq> [] \<Longrightarrow>
   frameCountRef (captureFrame_resumed_modal (Resolved (Some ph)) m) = frameCountRef m + 1"
  by (simp add: captureFrame_resumed_modal_def wsSend_def Let_def
        split: option.splits readyState.splits)

lemma captureFrame_resumed_modal_frameCount:
  "frameCountRef (captureFrame_resumed_modal r m) = frameCountRef m \<or>
   frameCountRef (captureFrame_resumed_modal r m) = frameCountRef m + 1"
  by (simp add: captureFrame_resumed_modal_def wsSend_def Let_def
        split: captureResult.splits option.splits readyState.splits)

lemma captureFrame_resumed_modal_sent:
  assumes "base64 ph = Some b" "b \<noteq> []" "wsRef m = Some i" "readyStateOf m i = OPEN"
  shows "sent (captureFrame_resumed_modal (Resolved (Some ph)) m) =
         sent m @ [(i, Frame_modal b)] @
         (if (frameCountRef m + 1) mod 5 = 0 then [(i, Ack_modal (frameCountRef m + 1))] else [])"
  using assms by (simp add: captureFrame_resumed_modal_def wsSend_def Let_def)

section \<open>The frame rate held by timers and pictures in flight\<close>

lemma list_all_removeAt: "list_all P xs \<Longrightarrow> list_all P (removeAt k xs)"
  by (auto simp: removeAt_def list_all_iff dest: in_set_takeD in_set_dropD)

lemma list_all_nth: "list_all P xs \<Longrightarrow> k < length xs \<Longrightarrow> P (xs ! k)"
  by (simp add: list_all_length)

lemma startVideoStream_eq:
  "startVideoStream fps s =
   (if \<not> cameraRef s \<or> \<not> wsOpen s then s
    else s\<lparr>isStreamingRef := True, frameCountRef := 0, lastFrameTimeRef := 0,
           intervals := (case captureIntervalRef s of
                           None \<Rightarrow> intervals s
                         | Some t \<Rightarrow> filter (\<lambda>e. fst e \<noteq> t) (intervals s)) @
                        [(nextTimerId s, \<lparr>period = halfNum (frameInterval fps), capturedFPS = fps\<rparr>)],
           captureIntervalRef := Some (nextTimerId s),
           nextTimerId := nextTimerId s + 1\<rparr>)"
  by (cases "captureIntervalRef s") (simp_all add: startVideoStream_def clearInterval_def Let_def)

lemma startVideoStream_coherent:
  "fps_coherent s \<Longrightarrow> fps = streamFPS s \<Longrightarrow> fps_coherent (startVideoStream fps s)"
  by (auto simp: startVideoStream_eq fps_coherent_def list_all_iff split: option.splits)

lemma stopVideoStream_coherent: "fps_coherent s \<Longrightarrow> fps_coherent (stopVideoStream s)"
  by (auto simp: stopVideoStream_eq fps_coherent_def list_all_iff split: option.splits)

lemma sendIfOpen_coherent [simp]: "fps_coherent (sendIfOpen m s) = fps_coherent s"
  by (simp add: sendIfOpen_eq fps_coherent_def)

lemma onmessage_coherent: "fps_coherent s \<Longrightarrow> fps_coherent (onmessage time payload s)"
  by (auto simp: onmessage_def handleWebSocketMessage_def bindE_def Let_def fps_coherent_def
        split: option.splits sum.splits if_splits)

lemma captureFrame_resumed_coherent:
  "fps_coherent s \<Longrightarrow> fps_coherent (captureFrame_resumed fps now r s)"
  by (simp add: captureFrame_resumed_def sendIfOpen_eq fps_coherent_def Let_def
        split: captureResult.splits option.splits)

lemma coherent_fields [simp]:
  "fps_coherent (s\<lparr>isMountedRef := b\<rparr>) = fps_coherent s"
  "fps_coherent (s\<lparr>cameraRef := c\<rparr>) = fps_coherent s"
  "fps_coherent (s\<lparr>sockets := ss\<rparr>) = fps_coherent s"
  "fps_coherent (s\<lparr>wsRef := w\<rparr>) = fps_coherent s"
  "fps_coherent (s\<lparr>analysisActive := a\<rparr>) = fps_coherent s"
  "fps_coherent (s\<lparr>status := st\<rparr>) = fps_coherent s"
  "fps_coherent (s\<lparr>currentPrediction := p\<rparr>) = fps_coherent s"
  by (simp_all add: fps_coherent_def)

lemma step_coherent:
  assumes "fps_coherent s" "ev \<noteq> PressFPS"
  shows "fps_coherent (step ev s)"
proof (cases ev)
  case Mount
  with assms show ?thesis by (simp add: connectWebSocket_def)
next
  case Unmount
  with assms show ?thesis
    by (auto simp: disconnectWebSocket_def wsClose_def intro!: stopVideoStream_coherent
          split: option.splits)
next
  case (WsMessage i time payload)
  with assms show ?thesis by (simp add: onmessage_coherent)
next
  case PressStart
  with assms show ?thesis
    by (simp add: startAnalysis_def connectWebSocket_def sendIfOpen_eq fps_coherent_def)
next
  case PressStop
  with assms show ?thesis by (simp add: stopAnalysis_def stopVideoStream_coherent)
next
  case (Fire k)
  show ?thesis
  proof (cases "k < length (timeouts s)")
    case False
    with Fire assms show ?thesis by simp
  next
    case True
    let ?s = "s\<lparr>timeouts := removeAt k (timeouts s)\<rparr>"
    from assms have c: "fps_coherent ?s"
      by (simp add: fps_coherent_def list_all_removeAt)
    from assms True have f: "timeoutFPS (timeouts s ! k) = streamFPS s"
      using list_all_nth [of "\<lambda>t. timeoutFPS t = streamFPS s" "timeouts s" k]
      by (simp add: fps_coherent_def)
    show ?thesis
    proof (cases "timeouts s ! k")
      case (RetryStartAnalysis fps)
      with Fire True c f show ?thesis
        by (simp add: startAnalysis_def connectWebSocket_def sendIfOpen_eq fps_coherent_def)
    next
      case (DelayedStartVideoStream fps)
      with Fire True f startVideoStream_coherent [OF c, of fps] show ?thesis by simp
    next
      case (DelayedRestart fps newFPS)
      with Fire True f startVideoStream_coherent [OF c, of fps] show ?thesis by simp
    qed
  qed
next
  case (Tick t now)
  show ?thesis
  proof (cases "map_of (intervals s) t")
    case None
    with Tick assms show ?thesis by simp
  next
    case (Some tm)
    then have "(t, tm) \<in> set (intervals s)" by (rule map_of_SomeD)
    with assms have "capturedFPS tm = streamFPS s"
      by (auto simp: fps_coherent_def list_all_iff)
    with Tick Some assms show ?thesis
      by (simp add: captureFrame_def fps_coherent_def)
  qed
next
  case (CaptureReturn k r)
  show ?thesis
  proof (cases "k < length (inFlight s)")
    case False
    with CaptureReturn assms show ?thesis by simp
  next
    case True
    from assms have "fps_coherent (s\<lparr>inFlight := removeAt k (inFlight s)\<rparr>)"
      by (simp add: fps_coherent_def list_all_removeAt)
    with CaptureReturn True show ?thesis by (simp add: captureFrame_resumed_coherent)
  qed
qed (use assms in \<open>simp_all add: onopen_def onclose_def onerror_def toggleCameraFacing_def
       clearHistory_def fps_coherent_def\<close>)

lemma run_coherent:
  "fps_coherent s \<Longrightarrow> PressFPS \<notin> set evs \<Longrightarrow> fps_coherent (run evs s)"
proof (induction evs arbitrary: s)
  case Nil
  then show ?case by (simp add: run_def)
next
  case (Cons ev evs)
  from Cons.prems have "ev \<noteq> PressFPS" and rest: "PressFPS \<notin> set evs" by auto
  with Cons.prems have "fps_coherent (step ev s)" by (simp add: step_coherent)
  from Cons.IH [OF this rest] show ?case by (simp add: run_def)
qed

lemma initial_coherent: "fps_coherent initialState"
  by (simp add: fps_coherent_def initialState_def)

section \<open>The frame counter\<close>

lemma step_frameCount:
  "frameCountRef (step ev s) = frameCountRef s \<or>
   (\<exists>k. ev = Fire k) \<and> frameCountRef (step ev s) = 0 \<and> isStreamingRef (step ev s) \<or>
   (\<exists>k r. ev = CaptureReturn k r) \<and> frameCountRef (step ev s) = frameCountRef s + 1 \<and>
     length (sent s) < length (sent (step ev s))"
proof (cases ev)
  case (WsMessage i time payload)
  then show ?thesis
    by (auto simp: onmessage_def handleWebSocketMessage_def bindE_def Let_def
          split: option.splits sum.splits if_splits)
next
  case (Fire k)
  show ?thesis
  proof (cases "k < length (timeouts s)")
    case False
    with Fire show ?thesis by simp
  next
    case True
    show ?thesis
    proof (cases "timeouts s ! k")
      case (RetryStartAnalysis fps)
      with Fire True show ?thesis by (simp add: startAnalysis_def connectWebSocket_def)
    next
      case (DelayedStartVideoStream fps)
      with Fire True show ?thesis
        using startVideoStream_frameCount [of fps "s\<lparr>timeouts := removeAt k (timeouts s)\<rparr>"]
        by auto
    next
      case (DelayedRestart fps newFPS)
      with Fire True show ?thesis
        using startVideoStream_frameCount [of fps "s\<lparr>timeouts := removeAt k (timeouts s)\<rparr>"]
        by auto
    qed
  qed
next
  case (CaptureReturn k r)
  then show ?thesis
    using captureFrame_resumed_frameCount
      [of "fst (inFlight s ! k)" "snd (inFlight s ! k)" r "s\<lparr>inFlight := removeAt k (inFlight s)\<rparr>"]
    by auto
qed (simp_all add: connectWebSocket_def disconnectWebSocket_def onopen_def onclose_def
       onerror_def startAnalysis_def stopAnalysis_def toggleStreamFPS_def Let_def
       toggleCameraFacing_def clearHistory_def captureFrame_def wsClose_def
       split: option.splits)

lemma step_modal_frameCount:
  "frameCountRef (step_modal ev m) = frameCountRef m \<or>
   (\<exists>k r. ev = CaptureReturn k r) \<and> frameCountRef (step_modal ev m) = frameCountRef m + 1"
proof (cases ev)
  case (WsMessage i time payload)
  then show ?thesis
    by (auto simp: onmessage_modal_def handleWebSocketMessage_modal_def bindE_def Let_def
          split: option.splits sum.splits if_splits)
next
  case (CaptureReturn k r)
  then show ?thesis
    using captureFrame_resumed_modal_frameCount
      [of r "m\<lparr>inFlight_modal := inFlight_modal m - 1\<rparr>"]
    by auto
qed (simp_all add: connectWebSocket_def disconnectWebSocket_modal_def onopen_def onclose_def
       onerror_def startAnalysis_modal_def stopAnalysis_modal_def Let_def
       toggleCameraFacing_def clearHistory_def captureFrame_modal_def wsClose_def
       clearInterval_modal_def split: option.splits)

text \<open>
  Claim C4, as the code has it. In \<^verbatim>\<open>index.tsx\<close> a stream start, \<^verbatim>\<open>startVideoStream\<close> passing its guard, sets the
  frame count to 0 (a call that fails the guard starts nothing and changes nothing); an
  accepted capture, one that returns frame data while the socket is open, adds exactly 1
  and sends the frame; and of all events only these two change the count. In \<^verbatim>\<open>modal.tsx\<close> the
  count is never reset: \<^verbatim>\<open>startAnalysis\<close> leaves it as it is, every capture that returns frame data
  adds 1, whether or not the frame can still be sent, and no other event changes it.
\<close>

theorem frameCount_changes:
  "(cameraRef s \<and> wsOpen s \<longrightarrow>
      frameCountRef (startVideoStream fps s) = 0 \<and> isStreamingRef (startVideoStream fps s)) \<and>
   (\<not> (cameraRef s \<and> wsOpen s) \<longrightarrow> startVideoStream fps s = s) \<and>
   (base64 ph = Some b \<and> b \<noteq> [] \<and> wsRef s' = Some i \<and> readyStateOf s' i = OPEN \<longrightarrow>
      frameCountRef (captureFrame_resumed fps' now (Resolved (Some ph)) s') = frameCountRef s' + 1 \<and>
      (i, Video_frame b (frameCountRef s' + 1) now (width ph) (height ph))
        \<in> set (sent (captureFrame_resumed fps' now (Resolved (Some ph)) s'))) \<and>
   (frameCountRef (step ev t) = frameCountRef t \<or>
    (\<exists>k. ev = Fire k) \<and> frameCountRef (step ev t) = 0 \<and> isStreamingRef (step ev t) \<or>
    (\<exists>k r. ev = CaptureReturn k r) \<and> frameCountRef (step ev t) = frameCountRef t + 1 \<and>
      length (sent t) < length (sent (step ev t))) \<and>
   frameCountRef (startAnalysis_modal conn m) = frameCountRef m \<and>
   (base64 ph' = Some b' \<and> b' \<noteq> [] \<longrightarrow>
      frameCountRef (captureFrame_resumed_modal (Resolved (Some ph')) m') = frameCountRef m' + 1) \<and>
   (frameCountRef (step_modal ev' t') = frameCountRef t' \<or>
    (\<exists>k r. ev' = CaptureReturn k r) \<and> frameCountRef (step_modal ev' t') = frameCountRef t' + 1)"
  using startVideoStream_starts [of s fps] startVideoStream_refused [of s fps]
    captureFrame_resumed_accepted [of ph b s' i fps' now]
    step_frameCount [of ev t] startAnalysis_modal_frameCount [of conn m]
    captureFrame_resumed_modal_data [of ph' b' m'] step_modal_frameCount [of ev' t']
  by simp

lemma started_guard: "cameraRef started_state \<and> wsOpen started_state"
  by code_simp

lemma initial_guard: "\<not> (cameraRef initialState \<and> wsOpen initialState)"
  by code_simp

lemma streaming_socket:
  "base64 sample_photo = Some ''QUJD'' \<and> ''QUJD'' \<noteq> [] \<and> wsRef streaming_state = Some 0 \<and>
   readyStateOf streaming_state 0 = OPEN"
  by code_simp

theorem frameCount_changes_witness:
  "cameraRef started_state \<and> wsOpen started_state \<and>
   frameCountRef (startVideoStream 5 started_state) = 0 \<and>
   \<not> (cameraRef initialState \<and> wsOpen initialState) \<and>
   startVideoStream 5 initialState = initialState \<and>
   base64 sample_photo = Some ''QUJD'' \<and> ''QUJD'' \<noteq> [] \<and>
   wsRef streaming_state = Some 0 \<and> readyStateOf streaming_state 0 = OPEN \<and>
   frameCountRef (captureFrame_resumed 5 1700000000000 (Resolved (Some sample_photo))
     streaming_state) = frameCountRef streaming_state + 1 \<and>
   frameCountRef (captureFrame_resumed_modal (Resolved (Some sample_photo)) modal_streaming) =
     frameCountRef modal_streaming + 1"
  using frameCount_changes [of started_state 5 sample_photo "''QUJD''" streaming_state 0 5
      1700000000000 Mount initialState True initialState_modal sample_photo "''QUJD''"
      modal_streaming Mount initialState_modal]
    frameCount_changes [of initialState 5 sample_photo "''QUJD''" streaming_state 0 5
      1700000000000 Mount initialState True initialState_modal sample_photo "''QUJD''"
      modal_streaming Mount initialState_modal]
    started_guard initial_guard streaming_socket
  by simp

text \<open>
  As the claim is written, with a reset on every stream start, it fails in \<^verbatim>\<open>modal.tsx\<close>: one frame
  is sent, the analysis is stopped and started again, and the count is still 1.
\<close>

theorem frameCount_not_reset_in_modal:
  "frameCountRef modal_after_frame = 1 \<and> \<not> analysisActive modal_after_frame \<and>
   analysisActive (step_modal PressStart modal_after_frame) \<and>
   captureIntervalRef (step_modal PressStart modal_after_frame) = Some 2 \<and>
   frameCountRef (step_modal PressStart modal_after_frame) = 1"
  by code_simp

section \<open>Acknowledgements\<close>

lemma step_sent_other:
  assumes "\<And>k r. ev \<noteq> CaptureReturn k r"
  shows "sent (step ev s) = sent s \<or>
         (\<exists>i fps. sent (step ev s) = sent s @ [(i, Start_video_stream fps 1)]) \<or>
         (\<exists>i. sent (step ev s) = sent s @ [(i, Stop_video_stream)])"
proof (cases ev)
  case (WsMessage i time payload)
  then show ?thesis
    by (auto simp: onmessage_def handleWebSocketMessage_def bindE_def Let_def
          split: option.splits sum.splits if_splits)
next
  case (Fire k)
  show ?thesis
  proof (cases "k < length (timeouts s)")
    case False
    with Fire show ?thesis by simp
  next
    case True
    with Fire show ?thesis
      by (cases "timeouts s ! k") (simp_all add: startAnalysis_def connectWebSocket_def)
  qed
next
  case (CaptureReturn k r)
  with assms [of k r] show ?thesis by blast
next
  case PressStart
  then show ?thesis
    by (auto simp: startAnalysis_def connectWebSocket_def sendIfOpen_sent split: option.splits)
next
  case PressStop
  then show ?thesis
    by (auto simp: stopAnalysis_def sendIfOpen_sent split: option.splits)
next
  case Unmount
  then show ?thesis
    by (simp add: disconnectWebSocket_def wsClose_def split: option.splits)
qed (simp_all add: connectWebSocket_def onopen_def onclose_def
       onerror_def toggleStreamFPS_def Let_def
       toggleCameraFacing_def clearHistory_def captureFrame_def
       split: option.splits)

lemma step_new_ack:
  assumes "sent (step ev s) = sent s @ new" and "(i, Ack n f) \<in> set new"
  shows "(\<exists>k r. ev = CaptureReturn k r \<and> k < length (inFlight s) \<and> f = fst (inFlight s ! k)) \<and>
         frameCountRef (step ev s) = n \<and> n = frameCountRef s + 1 \<and> n mod 10 = 0 \<and>
         (\<exists>b t w h. new = [(i, Video_frame b n t w h), (i, Ack n f)])"
proof (cases "\<exists>k r. ev = CaptureReturn k r")
  case False
  then have "\<And>k r. ev \<noteq> CaptureReturn k r" by blast
  from step_sent_other [OF this, of s] assms show ?thesis by auto
next
  case True
  then obtain k r where ev: "ev = CaptureReturn k r" by blast
  show ?thesis
  proof (cases "k < length (inFlight s)")
    case False
    with ev assms show ?thesis by simp
  next
    case True
    let ?s = "s\<lparr>inFlight := removeAt k (inFlight s)\<rparr>"
    let ?fps = "fst (inFlight s ! k)" and ?now = "snd (inFlight s ! k)"
    from ev True have st: "step ev s = captureFrame_resumed ?fps ?now r ?s" by simp
    from captureFrame_resumed_sent [of ?fps ?now r ?s] assms ev True show ?thesis
      unfolding st by (auto split: if_splits)
  qed
qed

lemma step_accepted_any:
  assumes "k < length (inFlight t)" "base64 ph = Some b" "b \<noteq> []" "wsRef t = Some i"
    "readyStateOf t i = OPEN"
  shows "sent (step (CaptureReturn k (Resolved (Some ph))) t) =
         sent t @
         [(i, Video_frame b (frameCountRef t + 1) (snd (inFlight t ! k)) (width ph) (height ph))] @
         (if (frameCountRef t + 1) mod 10 = 0
          then [(i, Ack (frameCountRef t + 1) (fst (inFlight t ! k)))] else [])"
    and "frameCountRef (step (CaptureReturn k (Resolved (Some ph))) t) = frameCountRef t + 1"
proof -
  let ?t = "t\<lparr>inFlight := removeAt k (inFlight t)\<rparr>"
  from assms have "wsRef ?t = Some i" "readyStateOf ?t i = OPEN" by simp_all
  from captureFrame_resumed_accepted [OF assms(2,3) this, of "fst (inFlight t ! k)"
      "snd (inFlight t ! k)"] assms(1)
  show "sent (step (CaptureReturn k (Resolved (Some ph))) t) =
         sent t @
         [(i, Video_frame b (frameCountRef t + 1) (snd (inFlight t ! k)) (width ph) (height ph))] @
         (if (frameCountRef t + 1) mod 10 = 0
          then [(i, Ack (frameCountRef t + 1) (fst (inFlight t ! k)))] else [])"
    and "frameCountRef (step (CaptureReturn k (Resolved (Some ph))) t) = frameCountRef t + 1"
    by simp_all
qed

lemma step_accepted_some:
  assumes "k < length (inFlight t)" "base64 ph = Some b" "b \<noteq> []" "wsRef t = Some i"
    "readyStateOf t i = OPEN"
  shows "\<exists>f. sent (step (CaptureReturn k (Resolved (Some ph))) t) =
         sent t @
         [(i, Video_frame b (frameCountRef t + 1) (snd (inFlight t ! k)) (width ph) (height ph))] @
         (if (frameCountRef t + 1) mod 10 = 0 then [(i, Ack (frameCountRef t + 1) f)] else [])"
  using step_accepted_any(1) [OF assms] by blast

lemma step_accepted_sent:
  assumes "k < length (inFlight t)" "base64 ph = Some b" "b \<noteq> []" "wsRef t = Some i"
    "readyStateOf t i = OPEN" "fps_coherent t"
  shows "sent (step (CaptureReturn k (Resolved (Some ph))) t) =
         sent t @
         [(i, Video_frame b (frameCountRef t + 1) (snd (inFlight t ! k)) (width ph) (height ph))] @
         (if (frameCountRef t + 1) mod 10 = 0
          then [(i, Ack (frameCountRef t + 1) (streamFPS t))] else [])"
    and "frameCountRef (step (CaptureReturn k (Resolved (Some ph))) t) = frameCountRef t + 1"
proof -
  let ?t = "t\<lparr>inFlight := removeAt k (inFlight t)\<rparr>"
  from assms have f: "fst (inFlight t ! k) = streamFPS t"
    using list_all_nth [of "\<lambda>c. fst c = streamFPS t" "inFlight t" k]
    by (simp add: fps_coherent_def)
  from assms have "wsRef ?t = Some i" "readyStateOf ?t i = OPEN" by simp_all
  from captureFrame_resumed_accepted [OF assms(2,3) this, of "fst (inFlight t ! k)"
      "snd (inFlight t ! k)"] assms(1) f
  show "sent (step (CaptureReturn k (Resolved (Some ph))) t) =
         sent t @
         [(i, Video_frame b (frameCountRef t + 1) (snd (inFlight t ! k)) (width ph) (height ph))] @
         (if (frameCountRef t + 1) mod 10 = 0
          then [(i, Ack (frameCountRef t + 1) (streamFPS t))] else [])"
    and "frameCountRef (step (CaptureReturn k (Resolved (Some ph))) t) = frameCountRef t + 1"
    by simp_all
qed

lemma step_new_ack_coherent:
  assumes "sent (step ev s) = sent s @ new" and "(i, Ack n f) \<in> set new" and "fps_coherent s"
  shows "f = streamFPS s"
proof -
  from step_new_ack [OF assms(1,2)] obtain k where "k < length (inFlight s)"
    and "f = fst (inFlight s ! k)" by blast
  with assms(3) show ?thesis
    using list_all_nth [of "\<lambda>c. fst c = streamFPS s" "inFlight s" k]
    by (simp add: fps_coherent_def)
qed

text \<open>
  Claim C5, as the code has it. In \<^verbatim>\<open>index.tsx\<close> an accepted capture sends the frame and, directly
  after it, one \<^verbatim>\<open>ack\<close> carrying the new frame count, if and only if the new count is a
  multiple of 10; as long as the frame rate has not been toggled, so that every timer
  and every picture in flight holds the current frame rate, that \<^verbatim>\<open>ack\<close> carries the target
  frame rate. Whenever an event sends an \<^verbatim>\<open>ack\<close> at all, the event is such a capture and the
  messages it sent are that frame and that one \<^verbatim>\<open>ack\<close>. In \<^verbatim>\<open>modal.tsx\<close> an accepted capture sends the
  bare frame and then an \<^verbatim>\<open>ack\<close> with the frame count alone, if and only if the new count is a
  multiple of 5.
\<close>

theorem ack_cadence:
  "fps_coherent initialState \<and>
   (fps_coherent s \<and> PressFPS \<notin> set evs \<longrightarrow> fps_coherent (run evs s)) \<and>
   (k < length (inFlight t) \<and> base64 ph = Some b \<and> b \<noteq> [] \<and> wsRef t = Some i \<and>
    readyStateOf t i = OPEN \<longrightarrow>
      frameCountRef (step (CaptureReturn k (Resolved (Some ph))) t) = frameCountRef t + 1 \<and>
      (\<exists>f. sent (step (CaptureReturn k (Resolved (Some ph))) t) =
         sent t @
         [(i, Video_frame b (frameCountRef t + 1) (snd (inFlight t ! k)) (width ph) (height ph))] @
         (if (frameCountRef t + 1) mod 10 = 0 then [(i, Ack (frameCountRef t + 1) f)] else [])) \<and>
      (fps_coherent t \<longrightarrow>
         sent (step (CaptureReturn k (Resolved (Some ph))) t) =
         sent t @
         [(i, Video_frame b (frameCountRef t + 1) (snd (inFlight t ! k)) (width ph) (height ph))] @
         (if (frameCountRef t + 1) mod 10 = 0
          then [(i, Ack (frameCountRef t + 1) (streamFPS t))] else []))) \<and>
   (sent (step ev u) = sent u @ new \<and> (j, Ack n f') \<in> set new \<longrightarrow>
      (\<exists>k' r. ev = CaptureReturn k' r) \<and>
      frameCountRef (step ev u) = n \<and> n = frameCountRef u + 1 \<and> n mod 10 = 0 \<and>
      (\<exists>b' t' w h. new = [(j, Video_frame b' n t' w h), (j, Ack n f')]) \<and>
      (fps_coherent u \<longrightarrow> f' = streamFPS u)) \<and>
   (base64 ph' = Some c \<and> c \<noteq> [] \<and> wsRef m = Some i' \<and> readyStateOf m i' = OPEN \<longrightarrow>
      sent (captureFrame_resumed_modal (Resolved (Some ph')) m) =
        sent m @ [(i', Frame_modal c)] @
        (if (frameCountRef m + 1) mod 5 = 0 then [(i', Ack_modal (frameCountRef m + 1))] else []))"
proof -
  have p1: "fps_coherent s \<and> PressFPS \<notin> set evs \<longrightarrow> fps_coherent (run evs s)"
    by (simp add: run_coherent)
  have p2: "k < length (inFlight t) \<and> base64 ph = Some b \<and> b \<noteq> [] \<and> wsRef t = Some i \<and>
    readyStateOf t i = OPEN \<longrightarrow>
      frameCountRef (step (CaptureReturn k (Resolved (Some ph))) t) = frameCountRef t + 1 \<and>
      (\<exists>f. sent (step (CaptureReturn k (Resolved (Some ph))) t) =
         sent t @
         [(i, Video_frame b (frameCountRef t + 1) (snd (inFlight t ! k)) (width ph) (height ph))] @
         (if (frameCountRef t + 1) mod 10 = 0 then [(i, Ack (frameCountRef t + 1) f)] else [])) \<and>
      (fps_coherent t \<longrightarrow>
         sent (step (CaptureReturn k (Resolved (Some ph))) t) =
         sent t @
         [(i, Video_frame b (frameCountRef t + 1) (snd (inFlight t ! k)) (width ph) (height ph))] @
         (if (frameCountRef t + 1) mod 10 = 0
          then [(i, Ack (frameCountRef t + 1) (streamFPS t))] else []))"
  proof (intro impI conjI)
    assume a: "k < length (inFlight t) \<and> base64 ph = Some b \<and> b \<noteq> [] \<and> wsRef t = Some i \<and>
      readyStateOf t i = OPEN"
    then have h: "k < length (inFlight t)" "base64 ph = Some b" "b \<noteq> []" "wsRef t = Some i"
      "readyStateOf t i = OPEN" by simp_all
    show "frameCountRef (step (CaptureReturn k (Resolved (Some ph))) t) = frameCountRef t + 1"
      by (rule step_accepted_any(2) [OF h])
    show "\<exists>f. sent (step (CaptureReturn k (Resolved (Some ph))) t) =
         sent t @
         [(i, Video_frame b (frameCountRef t + 1) (snd (inFlight t ! k)) (width ph) (height ph))] @
         (if (frameCountRef t + 1) mod 10 = 0 then [(i, Ack (frameCountRef t + 1) f)] else [])"
      by (rule step_accepted_some [OF h])
    assume "fps_coherent t"
    with h show "sent (step (CaptureReturn k (Resolved (Some ph))) t) =
         sent t @
         [(i, Video_frame b (frameCountRef t + 1) (snd (inFlight t ! k)) (width ph) (height ph))] @
         (if (frameCountRef t + 1) mod 10 = 0
          then [(i, Ack (frameCountRef t + 1) (streamFPS t))] else [])"
      by (rule step_accepted_sent(1))
  qed
  have p3: "sent (step ev u) = sent u @ new \<and> (j, Ack n f') \<in> set new \<longrightarrow>
      (\<exists>k' r. ev = CaptureReturn k' r) \<and>
      frameCountRef (step ev u) = n \<and> n = frameCountRef u + 1 \<and> n mod 10 = 0 \<and>
      (\<exists>b' t' w h. new = [(j, Video_frame b' n t' w h), (j, Ack n f')]) \<and>
      (fps_coherent u \<longrightarrow> f' = streamFPS u)"
    using step_new_ack [of ev u new j n f'] step_new_ack_coherent [of ev u new j n f']
    by blast
  have p4: "base64 ph' = Some c \<and> c \<noteq> [] \<and> wsRef m = Some i' \<and> readyStateOf m i' = OPEN \<longrightarrow>
      sent (captureFrame_resumed_modal (Resolved (Some ph')) m) =
        sent m @ [(i', Frame_modal c)] @
        (if (frameCountRef m + 1) mod 5 = 0 then [(i', Ack_modal (frameCountRef m + 1))] else [])"
    using captureFrame_resumed_modal_sent [of ph' c m i'] by blast
  from initial_coherent p1 p2 p3 p4 show ?thesis by (intro conjI)
qed

lemma tenth_in_flight_read:
  "0 < length (inFlight tenth_in_flight) \<and> base64 sample_photo = Some ''QUJD'' \<and> ''QUJD'' \<noteq> [] \<and>
   wsRef tenth_in_flight = Some 0 \<and> readyStateOf tenth_in_flight 0 = OPEN \<and>
   frameCountRef tenth_in_flight = 9 \<and> streamFPS tenth_in_flight = 5 \<and>
   snd (inFlight tenth_in_flight ! 0) = 1700000001800 \<and> width sample_photo = 640 \<and>
   height sample_photo = 480"
  by code_simp

lemma modal_four_frames_socket:
  "wsRef modal_four_frames = Some 0 \<and> readyStateOf modal_four_frames 0 = OPEN \<and>
   frameCountRef modal_four_frames = 4"
  by code_simp

lemma tenth_in_flight_events: "tenth_in_flight = run events_to_tenth initialState"
  by (simp add: tenth_in_flight_def nine_frames_def streaming_state_def run_def
        events_to_tenth_def)

lemma events_to_tenth_no_toggle: "PressFPS \<notin> set events_to_tenth"
  by (auto simp: events_to_tenth_def)

theorem ack_cadence_witness:
  "fps_coherent initialState \<and> PressFPS \<notin> set events_to_tenth \<and>
   fps_coherent tenth_in_flight \<and>
   0 < length (inFlight tenth_in_flight) \<and>
   base64 sample_photo = Some ''QUJD'' \<and> ''QUJD'' \<noteq> [] \<and> wsRef tenth_in_flight = Some 0 \<and>
   readyStateOf tenth_in_flight 0 = OPEN \<and> streamFPS tenth_in_flight = 5 \<and>
   sent (step (CaptureReturn 0 (Resolved (Some sample_photo))) tenth_in_flight) =
     sent tenth_in_flight @ [(0, Video_frame ''QUJD'' 10 1700000001800 640 480), (0, Ack 10 5)] \<and>
   (0, Ack 10 5) \<in> set [(0, Video_frame ''QUJD'' 10 1700000001800 640 480), (0::nat, Ack 10 5)] \<and>
   frameCountRef (step (CaptureReturn 0 (Resolved (Some sample_photo))) tenth_in_flight) = 10 \<and>
   wsRef modal_four_frames = Some 0 \<and> readyStateOf modal_four_frames 0 = OPEN \<and>
   sent (captureFrame_resumed_modal (Resolved (Some sample_photo)) modal_four_frames) =
     sent modal_four_frames @ [(0, Frame_modal ''QUJD''), (0, Ack_modal 5)]"
proof -
  note w = ack_cadence [of initialState events_to_tenth 0 tenth_in_flight sample_photo "''QUJD''" 0
      "CaptureReturn 0 (Resolved (Some sample_photo))" tenth_in_flight
      "[(0, Video_frame ''QUJD'' 10 1700000001800 640 480), (0, Ack 10 5)]" 0 10 5
      sample_photo "''QUJD''" modal_four_frames 0]
  note r = tenth_in_flight_read
  have mem: "(0, Ack 10 5) \<in>
      set [(0, Video_frame ''QUJD'' 10 1700000001800 640 480), (0::nat, Ack 10 5)]"
    by simp
  from w have i: "fps_coherent initialState" by blast
  from w events_to_tenth_no_toggle have "fps_coherent (run events_to_tenth initialState)"
    by blast
  then have c: "fps_coherent tenth_in_flight" by (simp only: tenth_in_flight_events)
  from w r c
  have "sent (step (CaptureReturn 0 (Resolved (Some sample_photo))) tenth_in_flight) =
        sent tenth_in_flight @
        [(0, Video_frame ''QUJD'' (frameCountRef tenth_in_flight + 1)
               (snd (inFlight tenth_in_flight ! 0)) (width sample_photo) (height sample_photo))] @
        (if (frameCountRef tenth_in_flight + 1) mod 10 = 0
         then [(0, Ack (frameCountRef tenth_in_flight + 1) (streamFPS tenth_in_flight))] else [])"
    by blast
  then have a: "sent (step (CaptureReturn 0 (Resolved (Some sample_photo))) tenth_in_flight) =
     sent tenth_in_flight @ [(0, Video_frame ''QUJD'' 10 1700000001800 640 480), (0, Ack 10 5)]"
    by (simp only: r) simp
  from w a mem
  have b: "frameCountRef (step (CaptureReturn 0 (Resolved (Some sample_photo))) tenth_in_flight) = 10"
    by blast
  from w modal_four_frames_socket r
  have "sent (captureFrame_resumed_modal (Resolved (Some sample_photo)) modal_four_frames) =
        sent modal_four_frames @ [(0, Frame_modal ''QUJD'')] @
        (if (frameCountRef modal_four_frames + 1) mod 5 = 0
         then [(0, Ack_modal (frameCountRef modal_four_frames + 1))] else [])"
    by blast
  with modal_four_frames_socket
  have d: "sent (captureFrame_resumed_modal (Resolved (Some sample_photo)) modal_four_frames) =
        sent modal_four_frames @ [(0, Frame_modal ''QUJD''), (0, Ack_modal 5)]"
    by simp
  from i c a b d mem r events_to_tenth_no_toggle modal_four_frames_socket
  show ?thesis by blast
qed

text \<open>
  As the claim is written, with an \<^verbatim>\<open>ack\<close> exactly at the multiples of 10 and the frame rate in
  it, it fails in \<^verbatim>\<open>modal.tsx\<close>: the fifth frame is followed by an \<^verbatim>\<open>ack\<close> that holds the count 5 and no
  frame rate.
\<close>

theorem ack_every_fifth_frame_in_modal:
  "frameCountRef modal_four_frames = 4 \<and>
   frameCountRef (run_modal [Tick 1 1700000000000, CaptureReturn 0 (Resolved (Some sample_photo))]
     modal_four_frames) = 5 \<and>
   (5::nat) mod 10 \<noteq> 0 \<and>
   sent (run_modal [Tick 1 1700000000000, CaptureReturn 0 (Resolved (Some sample_photo))]
     modal_four_frames) =
     sent modal_four_frames @ [(0, Frame_modal ''QUJD''), (0, Ack_modal 5)]"
  by code_simp

section \<open>Inbound messages\<close>

lemma msgType_type:
  "getProp data ''type'' = Inr (JStr t) \<Longrightarrow> t \<noteq> [] \<Longrightarrow> msgTypeOf data = Inr (toLowerCase t)"
  by (simp add: msgTypeOf_def bindE_def jsOr_def)

lemma msgType_action:
  "getProp data ''type'' = Inr v \<Longrightarrow> \<not> truthy v \<Longrightarrow> getProp data ''action'' = Inr (JStr t) \<Longrightarrow>
   t \<noteq> [] \<Longrightarrow> msgTypeOf data = Inr (toLowerCase t)"
  by (simp add: msgTypeOf_def bindE_def jsOr_def)

lemma msgType_msg_type:
  "getProp data ''type'' = Inr v \<Longrightarrow> \<not> truthy v \<Longrightarrow> getProp data ''action'' = Inr w \<Longrightarrow>
   \<not> truthy w \<Longrightarrow> getProp data ''msg_type'' = Inr (JStr t) \<Longrightarrow> t \<noteq> [] \<Longrightarrow>
   msgTypeOf data = Inr (toLowerCase t)"
  by (simp add: msgTypeOf_def bindE_def jsOr_def)

lemma msgTypeOf_getProp:
  "msgTypeOf data = Inr mt \<Longrightarrow> \<exists>v. getProp data name = Inr v"
  by (cases data) (simp_all add: msgTypeOf_def bindE_def)

lemma prediction_index:
  "msgTypeOf data = Inr ''prediction'' \<Longrightarrow> getProp data ''predicted_class'' = Inr pc \<Longrightarrow>
   getProp data ''confidence'' = Inr cf \<Longrightarrow>
   onmessage time (Some data) s =
     s\<lparr>currentPrediction := Some (Prediction pc cf time),
       chatHistory := appendHistory (OfPrediction (Prediction pc cf time)) (chatHistory s),
       totalPredictions := totalPredictions s + 1\<rparr>"
  by (simp add: onmessage_def handleWebSocketMessage_def bindE_def Let_def)

lemma status_index:
  "msgTypeOf data = Inr ''status'' \<Longrightarrow> getProp data ''message'' = Inr m \<Longrightarrow>
   onmessage time (Some data) s =
     s\<lparr>chatHistory := appendHistory (OfSystem (SystemMessage m time)) (chatHistory s)\<rparr>"
  by (simp add: onmessage_def handleWebSocketMessage_def bindE_def Let_def)

lemma error_index:
  assumes "msgTypeOf data = Inr ''error''" "getProp data ''message'' = Inr m"
    "toStringJs (jsOr m (JStr ''Analysis error'')) = Inr txt"
  shows "onmessage time (Some data) s =
         s\<lparr>status := sym_cross @ '' '' @ txt,
           chatHistory := appendHistory
             (OfSystem (SystemMessage (jsOr m (JStr ''Analysis error'')) time)) (chatHistory s),
           errorAlertShownRef := True\<rparr>"
  using assms by (simp add: onmessage_def handleWebSocketMessage_def bindE_def Let_def)

lemma other_index:
  "msgTypeOf data = Inr mt \<Longrightarrow> mt \<noteq> ''prediction'' \<Longrightarrow> mt \<noteq> ''status'' \<Longrightarrow> mt \<noteq> ''error'' \<Longrightarrow>
   onmessage time (Some data) s = s"
  by (simp add: onmessage_def handleWebSocketMessage_def bindE_def)

lemma throws_index: "msgTypeOf data = Inl e \<Longrightarrow> onmessage time (Some data) s = s"
  by (simp add: onmessage_def handleWebSocketMessage_def bindE_def)

lemma error_modal:
  assumes "getProp data ''type'' = Inr (JStr ''error'')" "getProp data ''message'' = Inr m"
    "toStringJs m = Inr txt"
  shows "onmessage_modal time (Some data) s =
         s\<lparr>status := sym_cross @ '' '' @ txt, alerts := alerts s @ [(''Analysis Error'', m)]\<rparr>"
  using assms by (simp add: onmessage_modal_def handleWebSocketMessage_modal_def bindE_def Let_def)

lemma other_modal:
  "getProp data ''type'' = Inr t \<Longrightarrow> t \<noteq> JStr ''prediction'' \<Longrightarrow> t \<noteq> JStr ''status'' \<Longrightarrow>
   t \<noteq> JStr ''error'' \<Longrightarrow> onmessage_modal time (Some data) m = m"
  by (simp add: onmessage_modal_def handleWebSocketMessage_modal_def bindE_def)

lemma error_index_string:
  assumes "msgTypeOf data = Inr ''error''" "getProp data ''message'' = Inr m"
    "jsOr m (JStr ''Analysis error'') = JStr txt"
  shows "onmessage time (Some data) s =
         s\<lparr>status := sym_cross @ '' '' @ txt,
           chatHistory := appendHistory (OfSystem (SystemMessage (JStr txt) time)) (chatHistory s),
           errorAlertShownRef := True\<rparr>"
  using error_index [OF assms(1,2), of "txt" time s] assms(3) by simp

lemma error_modal_frame:
  assumes "getProp data ''type'' = Inr (JStr ''error'')"
  shows "chatHistory (onmessage_modal time (Some data) s) = chatHistory s"
    and "analysisActive (onmessage_modal time (Some data) s) = analysisActive s"
    and "captureIntervalRef (onmessage_modal time (Some data) s) = captureIntervalRef s"
    and "intervals_modal (onmessage_modal time (Some data) s) = intervals_modal s"
    and "isConnected (onmessage_modal time (Some data) s) = isConnected s"
    and "sent (onmessage_modal time (Some data) s) = sent s"
  using assms
  by (simp_all add: onmessage_modal_def handleWebSocketMessage_modal_def bindE_def Let_def
        split: sum.splits)

text \<open>
  Claim C6, as the code has it. In \<^verbatim>\<open>index.tsx\<close> a message of type \<^verbatim>\<open>error\<close> whose \<^verbatim>\<open>message\<close> is a string (or
  is missing or otherwise falsy, so that the default text stands in for it) sets the
  status to the cross mark and that text, appends exactly one system entry to the
  history, and leaves \<^verbatim>\<open>analysisActive\<close>, the streaming flag, the capture timer, the connection and the
  messages sent as they were. In \<^verbatim>\<open>modal.tsx\<close> a message of type \<^verbatim>\<open>error\<close> leaves the history unchanged,
  and so \<^verbatim>\<open>analysisActive\<close>, the capture timer, the connection and the messages sent; when its \<^verbatim>\<open>message\<close> is a
  string, it sets the status to the cross mark and that text and raises an alert.
\<close>

theorem error_message_effect:
  "(msgTypeOf data = Inr ''error'' \<and> getProp data ''message'' = Inr m \<and>
    jsOr m (JStr ''Analysis error'') = JStr txt \<longrightarrow>
      status (onmessage time (Some data) s) = sym_cross @ '' '' @ txt \<and>
      chatHistory (onmessage time (Some data) s) =
        appendHistory (OfSystem (SystemMessage (JStr txt) time)) (chatHistory s) \<and>
      analysisActive (onmessage time (Some data) s) = analysisActive s \<and>
      isStreamingRef (onmessage time (Some data) s) = isStreamingRef s \<and>
      captureIntervalRef (onmessage time (Some data) s) = captureIntervalRef s \<and>
      intervals (onmessage time (Some data) s) = intervals s \<and>
      isMountedRef (onmessage time (Some data) s) = isMountedRef s \<and>
      isConnected (onmessage time (Some data) s) = isConnected s \<and>
      sent (onmessage time (Some data) s) = sent s) \<and>
   (getProp d ''type'' = Inr (JStr ''error'') \<longrightarrow>
      chatHistory (onmessage_modal tm (Some d) ms) = chatHistory ms \<and>
      analysisActive (onmessage_modal tm (Some d) ms) = analysisActive ms \<and>
      captureIntervalRef (onmessage_modal tm (Some d) ms) = captureIntervalRef ms \<and>
      intervals_modal (onmessage_modal tm (Some d) ms) = intervals_modal ms \<and>
      isConnected (onmessage_modal tm (Some d) ms) = isConnected ms \<and>
      sent (onmessage_modal tm (Some d) ms) = sent ms) \<and>
   (getProp d ''type'' = Inr (JStr ''error'') \<and> getProp d ''message'' = Inr (JStr txt') \<longrightarrow>
      status (onmessage_modal tm (Some d) ms) = sym_cross @ '' '' @ txt' \<and>
      alerts (onmessage_modal tm (Some d) ms) = alerts ms @ [(''Analysis Error'', JStr txt')])"
  by (simp add: error_index_string error_modal_frame error_modal)

lemma errorData_read:
  "msgTypeOf errorData = Inr ''error'' \<and>
   getProp errorData ''message'' = Inr (JStr ''model unavailable'') \<and>
   jsOr (JStr ''model unavailable'') (JStr ''Analysis error'') = JStr ''model unavailable'' \<and>
   getProp errorData ''type'' = Inr (JStr ''error'')"
  by code_simp

lemma streaming_state_read:
  "analysisActive streaming_state \<and> isStreamingRef streaming_state \<and>
   chatHistory streaming_state = [] \<and> captureIntervalRef streaming_state = Some 1"
  by code_simp

theorem error_message_effect_witness:
  "msgTypeOf errorData = Inr ''error'' \<and>
   getProp errorData ''message'' = Inr (JStr ''model unavailable'') \<and>
   jsOr (JStr ''model unavailable'') (JStr ''Analysis error'') = JStr ''model unavailable'' \<and>
   status (onmessage ''10:00:01'' (Some errorData) streaming_state) =
     sym_cross @ '' model unavailable'' \<and>
   chatHistory (onmessage ''10:00:01'' (Some errorData) streaming_state) =
     [OfSystem (SystemMessage (JStr ''model unavailable'') ''10:00:01'')] \<and>
   analysisActive (onmessage ''10:00:01'' (Some errorData) streaming_state) \<and>
   isStreamingRef (onmessage ''10:00:01'' (Some errorData) streaming_state) \<and>
   getProp errorData ''type'' = Inr (JStr ''error'') \<and>
   status (onmessage_modal ''10:00:01'' (Some errorData) modal_streaming) =
     sym_cross @ '' model unavailable'' \<and>
   chatHistory (onmessage_modal ''10:00:01'' (Some errorData) modal_streaming) =
     chatHistory modal_streaming \<and>
   analysisActive (onmessage_modal ''10:00:01'' (Some errorData) modal_streaming) =
     analysisActive modal_streaming"
proof -
  note w = error_message_effect [of errorData "JStr ''model unavailable''" "''model unavailable''"
      "''10:00:01''" streaming_state errorData "''10:00:01''" modal_streaming
      "''model unavailable''"]
  from w errorData_read
  have a: "status (onmessage ''10:00:01'' (Some errorData) streaming_state) =
             sym_cross @ '' '' @ ''model unavailable''"
    and b: "chatHistory (onmessage ''10:00:01'' (Some errorData) streaming_state) =
        appendHistory (OfSystem (SystemMessage (JStr ''model unavailable'') ''10:00:01''))
          (chatHistory streaming_state)"
    and c: "analysisActive (onmessage ''10:00:01'' (Some errorData) streaming_state) =
        analysisActive streaming_state"
    and d: "isStreamingRef (onmessage ''10:00:01'' (Some errorData) streaming_state) =
        isStreamingRef streaming_state"
    and f: "status (onmessage_modal ''10:00:01'' (Some errorData) modal_streaming) =
             sym_cross @ '' '' @ ''model unavailable''"
    and g: "chatHistory (onmessage_modal ''10:00:01'' (Some errorData) modal_streaming) =
        chatHistory modal_streaming"
    and h: "analysisActive (onmessage_modal ''10:00:01'' (Some errorData) modal_streaming) =
        analysisActive modal_streaming"
    by simp_all
  from b streaming_state_read
  have b': "chatHistory (onmessage ''10:00:01'' (Some errorData) streaming_state) =
     [OfSystem (SystemMessage (JStr ''model unavailable'') ''10:00:01'')]"
    by (simp add: appendHistory_def slice_last_def)
  from a b' c d f g h errorData_read streaming_state_read
  show ?thesis by simp
qed

text \<open>
  As the claim is written, with one system entry appended for every error message, it
  fails in \<^verbatim>\<open>modal.tsx\<close>: the error message of the specification's scenario leaves the history
  empty and raises an alert.
\<close>

theorem error_appends_nothing_in_modal:
  "readyStateOf modal_streaming 0 = OPEN \<and> analysisActive modal_streaming \<and>
   chatHistory modal_streaming = [] \<and>
   chatHistory (step_modal (WsMessage 0 ''10:00:01'' (Some errorData)) modal_streaming) = [] \<and>
   alerts (step_modal (WsMessage 0 ''10:00:01'' (Some errorData)) modal_streaming) =
     [(''Analysis Error'', JStr ''model unavailable'')]"
  by code_simp

text \<open>
  Claim C7, as the code has it. In \<^verbatim>\<open>index.tsx\<close> the type is the first truthy value among the
  fields \<^verbatim>\<open>type\<close>, \<^verbatim>\<open>action\<close> and \<^verbatim>\<open>msg_type\<close>, converted to text and to lower case: a non-empty string in \<^verbatim>\<open>type\<close>, or
  in \<^verbatim>\<open>action\<close> when \<^verbatim>\<open>type\<close> is falsy, or in \<^verbatim>\<open>msg_type\<close> when both are falsy, is read whatever its case. A
  \<^verbatim>\<open>prediction\<close> message sets the current prediction, appends it and counts it; a \<^verbatim>\<open>status\<close> message appends
  a system entry; any type other than \<^verbatim>\<open>prediction\<close>, \<^verbatim>\<open>status\<close> and \<^verbatim>\<open>error\<close> (so \<^verbatim>\<open>ack\<close>, and every unknown type)
  leaves the state unchanged, and so does a message whose type cannot be read. In \<^verbatim>\<open>modal.tsx\<close> only
  the field \<^verbatim>\<open>type\<close> is read and compared exactly: a value other than the strings \<^verbatim>\<open>prediction\<close>, \<^verbatim>\<open>status\<close> and
  \<^verbatim>\<open>error\<close> leaves the state unchanged.
\<close>

theorem message_classification:
  "(getProp data ''type'' = Inr (JStr t) \<and> t \<noteq> [] \<longrightarrow> msgTypeOf data = Inr (toLowerCase t)) \<and>
   (getProp data ''type'' = Inr v \<and> \<not> truthy v \<and> getProp data ''action'' = Inr (JStr a) \<and>
    a \<noteq> [] \<longrightarrow> msgTypeOf data = Inr (toLowerCase a)) \<and>
   (getProp data ''type'' = Inr v \<and> \<not> truthy v \<and> getProp data ''action'' = Inr w \<and>
    \<not> truthy w \<and> getProp data ''msg_type'' = Inr (JStr c) \<and> c \<noteq> [] \<longrightarrow>
      msgTypeOf data = Inr (toLowerCase c)) \<and>
   (msgTypeOf data = Inr ''prediction'' \<and> getProp data ''predicted_class'' = Inr pc \<and>
    getProp data ''confidence'' = Inr cf \<longrightarrow>
      onmessage time (Some data) s =
        s\<lparr>currentPrediction := Some (Prediction pc cf time),
          chatHistory := appendHistory (OfPrediction (Prediction pc cf time)) (chatHistory s),
          totalPredictions := totalPredictions s + 1\<rparr>) \<and>
   (msgTypeOf data = Inr ''status'' \<and> getProp data ''message'' = Inr m \<longrightarrow>
      onmessage time (Some data) s =
        s\<lparr>chatHistory := appendHistory (OfSystem (SystemMessage m time)) (chatHistory s)\<rparr>) \<and>
   (msgTypeOf data = Inr mt \<and> mt \<noteq> ''prediction'' \<and> mt \<noteq> ''status'' \<and> mt \<noteq> ''error'' \<longrightarrow>
      onmessage time (Some data) s = s) \<and>
   (msgTypeOf data = Inl e \<longrightarrow> onmessage time (Some data) s = s) \<and>
   (getProp d ''type'' = Inr u \<and> u \<noteq> JStr ''prediction'' \<and> u \<noteq> JStr ''status'' \<and>
    u \<noteq> JStr ''error'' \<longrightarrow> onmessage_modal tm (Some d) ms = ms)"
  using msgType_type [of data t] msgType_action [of data v a] msgType_msg_type [of data v w c]
    prediction_index [of data pc cf time s] status_index [of data m time s]
    other_index [of data mt time s] throws_index [of data e time s]
    other_modal [of d u tm ms]
  by blast

lemma classification_reads:
  "getProp (predictionData ''cavity'') ''type'' = Inr (JStr ''prediction'') \<and>
   toLowerCase ''prediction'' = ''prediction'' \<and>
   getProp (predictionData ''cavity'') ''predicted_class'' = Inr (JStr ''cavity'') \<and>
   getProp (predictionData ''cavity'') ''confidence'' = Inr (JNum ''0.9'') \<and>
   getProp actionData ''type'' = Inr JUndefined \<and> \<not> truthy JUndefined \<and>
   getProp actionData ''action'' = Inr (JStr ''Prediction'') \<and>
   toLowerCase ''Prediction'' = ''prediction'' \<and>
   getProp msg_typeData ''type'' = Inr JUndefined \<and>
   getProp msg_typeData ''action'' = Inr JUndefined \<and>
   getProp msg_typeData ''msg_type'' = Inr (JStr ''STATUS'') \<and>
   toLowerCase ''STATUS'' = ''status'' \<and>
   getProp msg_typeData ''message'' = Inr (JStr ''warming up'') \<and>
   msgTypeOf ackData = Inr ''ack'' \<and>
   msgTypeOf JNull = Inl TypeError \<and>
   getProp ackData ''type'' = Inr JUndefined"
  by code_simp

theorem message_classification_witness:
  "msgTypeOf (predictionData ''cavity'') = Inr ''prediction'' \<and>
   msgTypeOf actionData = Inr ''prediction'' \<and>
   msgTypeOf msg_typeData = Inr ''status'' \<and>
   currentPrediction (onmessage ''10:00:00'' (Some (predictionData ''cavity'')) initialState) =
     Some (Prediction (JStr ''cavity'') (JNum ''0.9'') ''10:00:00'') \<and>
   chatHistory (onmessage ''10:00:00'' (Some msg_typeData) initialState) =
     appendHistory (OfSystem (SystemMessage (JStr ''warming up'') ''10:00:00''))
       (chatHistory initialState) \<and>
   onmessage ''10:00:00'' (Some ackData) initialState = initialState \<and>
   onmessage ''10:00:00'' (Some JNull) initialState = initialState \<and>
   onmessage_modal ''10:00:00'' (Some ackData) initialState_modal = initialState_modal"
proof -
  let ?P = "predictionData ''cavity''"
  note r = classification_reads
  from r have p1: "getProp ?P ''type'' = Inr (JStr ''prediction'') \<and> ''prediction'' \<noteq> []"
    by simp
  from message_classification [of "predictionData ''cavity''" "''prediction''" "JNull" "''x''" "JNull" "''x''" "JNull" "JNull" "''10:00:00''" "initialState" "JNull" "''x''" "TypeError" "JNull" "JNull" "''10:00:00''" "initialState_modal"] p1 r
  have a: "msgTypeOf ?P = Inr ''prediction''" by simp
  from r have p2: "getProp actionData ''type'' = Inr JUndefined \<and> \<not> truthy JUndefined \<and>
      getProp actionData ''action'' = Inr (JStr ''Prediction'') \<and> ''Prediction'' \<noteq> []"
    by simp
  from message_classification [of "actionData" "''x''" "JUndefined" "''Prediction''" "JNull" "''x''" "JNull" "JNull" "''10:00:00''" "initialState" "JNull" "''x''" "TypeError" "JNull" "JNull" "''10:00:00''" "initialState_modal"] p2 r
  have b: "msgTypeOf actionData = Inr ''prediction''" by simp
  from r have p3: "getProp msg_typeData ''type'' = Inr JUndefined \<and> \<not> truthy JUndefined \<and>
      getProp msg_typeData ''action'' = Inr JUndefined \<and> \<not> truthy JUndefined \<and>
      getProp msg_typeData ''msg_type'' = Inr (JStr ''STATUS'') \<and> ''STATUS'' \<noteq> []"
    by simp
  from message_classification [of "msg_typeData" "''x''" "JUndefined" "''x''" "JUndefined" "''STATUS''" "JNull" "JNull" "''10:00:00''" "initialState" "JNull" "''x''" "TypeError" "JNull" "JNull" "''10:00:00''" "initialState_modal"] p3 r
  have c: "msgTypeOf msg_typeData = Inr ''status''" by simp
  from message_classification [of "predictionData ''cavity''" "''x''" "JNull" "''x''" "JNull" "''x''" "JStr ''cavity''" "JNum ''0.9''" "''10:00:00''" "initialState" "JNull" "''x''" "TypeError" "JNull" "JNull" "''10:00:00''" "initialState_modal"] a r
  have "onmessage ''10:00:00'' (Some ?P) initialState =
        initialState\<lparr>currentPrediction := Some (Prediction (JStr ''cavity'') (JNum ''0.9'') ''10:00:00''),
          chatHistory := appendHistory
            (OfPrediction (Prediction (JStr ''cavity'') (JNum ''0.9'') ''10:00:00''))
            (chatHistory initialState),
          totalPredictions := totalPredictions initialState + 1\<rparr>"
    by simp
  then have d: "currentPrediction (onmessage ''10:00:00'' (Some ?P) initialState) =
     Some (Prediction (JStr ''cavity'') (JNum ''0.9'') ''10:00:00'')"
    by simp
  from message_classification [of "msg_typeData" "''x''" "JNull" "''x''" "JNull" "''x''" "JNull" "JNull" "''10:00:00''" "initialState" "JStr ''warming up''" "''x''" "TypeError" "JNull" "JNull" "''10:00:00''" "initialState_modal"] c r
  have "onmessage ''10:00:00'' (Some msg_typeData) initialState =
        initialState\<lparr>chatHistory := appendHistory
          (OfSystem (SystemMessage (JStr ''warming up'') ''10:00:00'')) (chatHistory initialState)\<rparr>"
    by simp
  then have f: "chatHistory (onmessage ''10:00:00'' (Some msg_typeData) initialState) =
     appendHistory (OfSystem (SystemMessage (JStr ''warming up'') ''10:00:00''))
       (chatHistory initialState)"
    by simp
  have ne: "''ack'' \<noteq> ''prediction'' \<and> ''ack'' \<noteq> ''status'' \<and> ''ack'' \<noteq> ''error''" by simp
  from message_classification [of "ackData" "''x''" "JNull" "''x''" "JNull" "''x''" "JNull" "JNull" "''10:00:00''" "initialState" "JNull" "''ack''" "TypeError" "JNull" "JNull" "''10:00:00''" "initialState_modal"]
    r ne
  have g: "onmessage ''10:00:00'' (Some ackData) initialState = initialState" by simp
  from message_classification [of "JNull" "''x''" "JNull" "''x''" "JNull" "''x''" "JNull" "JNull" "''10:00:00''" "initialState" "JNull" "''x''" "TypeError" "JNull" "JNull" "''10:00:00''" "initialState_modal"] r
  have h: "onmessage ''10:00:00'' (Some JNull) initialState = initialState" by simp
  have ne': "JUndefined \<noteq> JStr ''prediction'' \<and> JUndefined \<noteq> JStr ''status'' \<and>
      JUndefined \<noteq> JStr ''error''" by simp
  from message_classification [of "JNull" "''x''" "JNull" "''x''" "JNull" "''x''" "JNull" "JNull" "''10:00:00''" "initialState" "JNull" "''x''" "TypeError" "ackData" "JUndefined" "''10:00:00''" "initialState_modal"] r ne'
  have i: "onmessage_modal ''10:00:00'' (Some ackData) initialState_modal = initialState_modal"
    by simp
  from a b c d f g h i show ?thesis by simp
qed

text \<open>
  As the claim is written, with the type read from \<^verbatim>\<open>action\<close> or \<^verbatim>\<open>msg_type\<close> and matched in any case, it
  fails in \<^verbatim>\<open>modal.tsx\<close>: a prediction announced in the field \<^verbatim>\<open>action\<close>, or as \<^verbatim>\<open>type\<close> in upper case, changes
  nothing there, while \<^verbatim>\<open>index.tsx\<close> takes the first as a prediction.
\<close>

theorem modal_reads_only_type:
  "readyStateOf modal_streaming 0 = OPEN \<and>
   step_modal (WsMessage 0 ''10:00:00'' (Some actionData)) modal_streaming = modal_streaming \<and>
   step_modal (WsMessage 0 ''10:00:00''
       (Some (JObj [(''type'', JStr ''PREDICTION''), (''predicted_class'', JStr ''cavity''),
                    (''confidence'', JNum ''0.9'')]))) modal_streaming = modal_streaming \<and>
   currentPrediction (step_modal (WsMessage 0 ''10:00:00'' (Some actionData)) modal_streaming) =
     None \<and>
   currentPrediction (step (WsMessage 0 ''10:00:00'' (Some actionData)) streaming_state) =
     Some (Prediction (JStr ''cavity'') (JNum ''0.9'') ''10:00:00'')"
  by code_simp

section \<open>The current prediction\<close>

lemma onmessage_currentPrediction:
  "currentPrediction (onmessage time payload s) = currentPrediction s \<or>
   (\<exists>data pc cf. payload = Some data \<and> msgTypeOf data = Inr ''prediction'' \<and>
      currentPrediction (onmessage time payload s) = Some (Prediction pc cf time))"
  by (auto simp: onmessage_def handleWebSocketMessage_def bindE_def Let_def
        split: option.splits sum.splits if_splits)

lemma step_currentPrediction:
  "currentPrediction (step ev s) = currentPrediction s \<or> currentPrediction (step ev s) = None \<or>
   (\<exists>i time data pc cf. ev = WsMessage i time (Some data) \<and> msgTypeOf data = Inr ''prediction'' \<and>
      currentPrediction (step ev s) = Some (Prediction pc cf time))"
proof (cases ev)
  case (WsMessage i time payload)
  then show ?thesis using onmessage_currentPrediction [of time payload s] by auto
next
  case (Fire k)
  then show ?thesis
    by (cases "timeouts s ! k") (simp_all add: startAnalysis_def connectWebSocket_def)
qed (simp_all add: connectWebSocket_def disconnectWebSocket_def onopen_def onclose_def
       onerror_def startAnalysis_def stopAnalysis_def toggleStreamFPS_def Let_def
       toggleCameraFacing_def clearHistory_def captureFrame_def wsClose_def
       split: option.splits)

lemma start_clears: "currentPrediction (startAnalysis True fps s) = None \<and>
   analysisActive (startAnalysis True fps s)"
  by (simp add: startAnalysis_def sendIfOpen_def split: option.splits)

lemma stop_clears: "currentPrediction (stopAnalysis s) = None \<and> \<not> analysisActive (stopAnalysis s)"
  by (simp add: stopAnalysis_def sendIfOpen_def stopVideoStream_def clearInterval_def Let_def
        split: option.splits)

lemma prediction_sets:
  assumes "msgTypeOf data = Inr ''prediction''"
  shows "currentPrediction (onmessage time (Some data) s) \<noteq> None"
proof -
  from assms obtain pc where pc: "getProp data ''predicted_class'' = Inr pc"
    using msgTypeOf_getProp by blast
  from assms obtain cf where cf: "getProp data ''confidence'' = Inr cf"
    using msgTypeOf_getProp by blast
  from prediction_index [OF assms pc cf] show ?thesis by simp
qed

text \<open>
  Claim C8, as the code has it. \<^verbatim>\<open>startAnalysis\<close> of a connected screen and \<^verbatim>\<open>stopAnalysis\<close>
  set the current prediction to null, as does \<^verbatim>\<open>clearHistory\<close>; an inbound prediction sets
  it and leaves \<^verbatim>\<open>analysisActive\<close> as it is, active or not; and an event that changes the
  current prediction either sets it to null or is such an inbound prediction.
\<close>

theorem currentPrediction_changes:
  "currentPrediction (startAnalysis True fps s) = None \<and>
   analysisActive (startAnalysis True fps s) \<and>
   currentPrediction (stopAnalysis s) = None \<and> \<not> analysisActive (stopAnalysis s) \<and>
   currentPrediction (clearHistory s) = None \<and>
   (msgTypeOf data = Inr ''prediction'' \<longrightarrow>
      currentPrediction (onmessage time (Some data) s) \<noteq> None \<and>
      analysisActive (onmessage time (Some data) s) = analysisActive s) \<and>
   (currentPrediction (step ev s) = currentPrediction s \<or>
    currentPrediction (step ev s) = None \<or>
    (\<exists>i time' data' pc cf. ev = WsMessage i time' (Some data') \<and>
       msgTypeOf data' = Inr ''prediction'' \<and>
       currentPrediction (step ev s) = Some (Prediction pc cf time')))"
proof -
  have "msgTypeOf data = Inr ''prediction'' \<Longrightarrow>
        analysisActive (onmessage time (Some data) s) = analysisActive s"
    using msgTypeOf_getProp [of data "''prediction''" "''predicted_class''"]
      msgTypeOf_getProp [of data "''prediction''" "''confidence''"]
      prediction_index [of data _ _ time s]
    by auto
  then show ?thesis
    using start_clears [of fps s] stop_clears [of s]
      prediction_sets [of data time s] step_currentPrediction [of ev s]
    by (simp add: clearHistory_def)
qed

lemma predictionData_type: "msgTypeOf (predictionData ''cavity'') = Inr ''prediction''"
  by code_simp

theorem currentPrediction_changes_witness:
  "msgTypeOf (predictionData ''cavity'') = Inr ''prediction'' \<and>
   currentPrediction (onmessage ''10:00:00'' (Some (predictionData ''cavity'')) initialState)
     \<noteq> None \<and>
   \<not> analysisActive (onmessage ''10:00:00'' (Some (predictionData ''cavity'')) initialState)"
proof -
  have "\<not> analysisActive initialState" by (simp add: initialState_def)
  with predictionData_type
    currentPrediction_changes [of 5 initialState "predictionData ''cavity''" "''10:00:00''" Mount]
  show ?thesis by simp
qed

text \<open>
  As the claim is written, with no reachable state holding a prediction while
  \<^verbatim>\<open>analysisActive\<close> is false, it fails: the server's answer to the last frame arrives
  after Stop was pressed, and is shown while the screen is idle.
\<close>

theorem prediction_while_inactive:
  "analysisActive after_first_frame \<and>
   \<not> analysisActive (step PressStop after_first_frame) \<and>
   currentPrediction (step PressStop after_first_frame) = None \<and>
   readyStateOf (step PressStop after_first_frame) 0 = OPEN \<and>
   \<not> analysisActive late_prediction \<and>
   currentPrediction late_prediction =
     Some (Prediction (JStr ''cavity'') (JNum ''0.9'') ''10:00:00'')"
  by code_simp

section \<open>Stopping\<close>

lemma stopVideoStream_idem: "stopVideoStream (stopVideoStream s) = stopVideoStream s"
  by (simp add: stopVideoStream_eq)

lemma stopVideoStream_initial: "stopVideoStream initialState = initialState"
  by (simp add: stopVideoStream_eq initialState_def)

text \<open>
  Claim C9. A stop can only be asked for with the Stop button, which is rendered disabled
  while \<^verbatim>\<open>analysisActive\<close> is false: on an idle screen the request changes nothing, whatever else the
  state holds, and a second request in a row changes nothing either. \<^verbatim>\<open>stopVideoStream\<close>, which stops the
  frame scheduler, is idempotent, and on the initial state, never started, it changes
  nothing.
\<close>

theorem stop_is_idempotent:
  "(\<not> analysisActive s \<longrightarrow> step PressStop s = s) \<and>
   step PressStop (step PressStop s) = step PressStop s \<and>
   stopVideoStream (stopVideoStream s) = stopVideoStream s \<and>
   stopVideoStream initialState = initialState"
  using stopVideoStream_idem [of s] stopVideoStream_initial stop_clears [of s]
  by simp

lemma late_prediction_idle:
  "\<not> analysisActive late_prediction \<and> \<not> isStreamingRef late_prediction \<and>
   captureIntervalRef late_prediction = None \<and>
   currentPrediction late_prediction =
     Some (Prediction (JStr ''cavity'') (JNum ''0.9'') ''10:00:00'')"
  by code_simp

theorem stop_is_idempotent_witness:
  "\<not> analysisActive late_prediction \<and> \<not> isStreamingRef late_prediction \<and>
   captureIntervalRef late_prediction = None \<and>
   step PressStop late_prediction = late_prediction \<and>
   currentPrediction (step PressStop late_prediction) =
     Some (Prediction (JStr ''cavity'') (JNum ''0.9'') ''10:00:00'')"
proof -
  from stop_is_idempotent [of late_prediction] late_prediction_idle
  have "step PressStop late_prediction = late_prediction" by blast
  with late_prediction_idle show ?thesis by (simp del: step.simps)
qed

section \<open>The capture interval\<close>

text \<open>
  Claim C1. The minimum interval between captures is to be 1000 / targetFps ms, with the
  timer at half of it. \<^verbatim>\<open>startVideoStream\<close> computes \<^verbatim>\<open>100 / streamFPS\<close>: 100/3, 20, 25/2 and 10 ms at 3, 5, 8 and 10 frames
  per second. At 5 frames per second, on a streaming screen whose last accepted capture
  was at 1700000000000: the timer installed has a period of 10 ms, a tick 19 ms later
  does nothing, and a tick 20 ms later asks the camera for the next picture, 180 ms
  before the 200 ms of the claim have passed.
\<close>

theorem frame_interval_is_100_over_fps:
  "frameInterval 3 = Fin (100 / 3) \<and> frameInterval 5 = Fin 20 \<and>
   frameInterval 8 = Fin (25 / 2) \<and> frameInterval 10 = Fin 10 \<and>
   streamFPS streaming_state = 5 \<and>
   map_of (intervals streaming_state) 1 = Some \<lparr>period = Fin 10, capturedFPS = 5\<rparr> \<and>
   lastFrameTimeRef after_first_frame = 1700000000000 \<and>
   frameCountRef after_first_frame = 1 \<and>
   inFlight after_first_frame = [] \<and>
   inFlight (step (Tick 1 1700000000019) after_first_frame) = [] \<and>
   inFlight (step (Tick 1 1700000000020) after_first_frame) = [(5, 1700000000020)]"
  by code_simp

section \<open>A socket that closes in mid-stream\<close>

text \<open>
  Claim C2. When the socket closes while streaming, \<^verbatim>\<open>analysisActive\<close> is to be forced to false and the
  scheduler stopped. On a streaming screen the close event does turn \<^verbatim>\<open>analysisActive\<close> off, and nothing
  is sent while the socket stays closed, the sends being guarded by the socket's state; but the streaming
  flag stays on and the capture timer stays installed, so the next tick still asks the
  camera for a picture. \<^verbatim>\<open>stopAnalysis\<close> on the same state turns the flag off and clears the timer.
\<close>

theorem close_leaves_scheduler_running:
  "analysisActive streaming_state \<and> isStreamingRef streaming_state \<and>
   captureIntervalRef streaming_state = Some 1 \<and>
   \<not> analysisActive (step (WsClose 0) streaming_state) \<and>
   isStreamingRef (step (WsClose 0) streaming_state) \<and>
   captureIntervalRef (step (WsClose 0) streaming_state) = Some 1 \<and>
   intervals (step (WsClose 0) streaming_state) = intervals streaming_state \<and>
   inFlight (run [WsClose 0, Tick 1 1700000000000] streaming_state) = [(5, 1700000000000)] \<and>
   sent (run [WsClose 0, Tick 1 1700000000000,
              CaptureReturn 0 (Resolved (Some sample_photo))] streaming_state) =
     sent streaming_state \<and>
   \<not> isStreamingRef (stopAnalysis streaming_state) \<and>
   captureIntervalRef (stopAnalysis streaming_state) = None \<and>
   intervals (stopAnalysis streaming_state) = []"
  by code_simp

end
